theory Spec2Isabelle
  imports Complex_Main
begin

section \<open>Search query parsing (package search)\<close>

text \<open>
  A Go string is modelled by the list of its characters. The tokenizer ranges over the
  runes of the query and only ever compares them with the ASCII characters double quote,
  single quote, space and colon, and \<^verbatim>\<open>Parse\<close> slices tokens next to those characters
  only, so ranging over the bytes of a valid UTF-8 string cuts at the same places.
  \<^verbatim>\<open>strings.ToLower\<close> is modelled on the ASCII letters; other characters are kept.
\<close>

abbreviation DQ :: char where
  "DQ \<equiv> CHR 0x22"

abbreviation SQ :: char where
  "SQ \<equiv> CHR 0x27"

definition toLowerRune :: "char \<Rightarrow> char" where
  "toLowerRune c =
     (case map_of (zip ''ABCDEFGHIJKLMNOPQRSTUVWXYZ'' ''abcdefghijklmnopqrstuvwxyz'') c of
        Some l \<Rightarrow> l
      | None \<Rightarrow> c)"

definition ToLower :: "string \<Rightarrow> string" where
  "ToLower = map toLowerRune"

definition HasPrefix :: "string \<Rightarrow> string \<Rightarrow> bool" where
  "HasPrefix s p = (take (length p) s = p)"

definition HasSuffix :: "string \<Rightarrow> string \<Rightarrow> bool" where
  "HasSuffix s p = (length p \<le> length s \<and> drop (length s - length p) s = p)"

text \<open>\<^verbatim>\<open>strings.Index(s, ":")\<close>: the position of the first colon, \<open>None\<close> for Go's -1.\<close>

fun Index :: "string \<Rightarrow> char \<Rightarrow> nat option" where
  "Index [] c = None"
| "Index (x # xs) c = (if x = c then Some 0 else map_option Suc (Index xs c))"

text \<open>
  A slice expression \<^verbatim>\<open>s[i:j]\<close> panics at run time unless \<open>0 \<le> i \<le> j \<le> len(s)\<close>.
  The upper bound is an \<open>int\<close> because the source computes it as \<^verbatim>\<open>len(s)-1\<close>.
\<close>

datatype panic = SliceBoundsOutOfRange

definition slice :: "string \<Rightarrow> nat \<Rightarrow> int \<Rightarrow> panic + string" where
  "slice s i j =
     (if int i \<le> j \<and> j \<le> int (length s)
      then Inr (take (nat j - i) (drop i s))
      else Inl SliceBoundsOutOfRange)"

text \<open>
  The struct \<^verbatim>\<open>Query\<close>. A nil pointer field is \<open>None\<close>. Times are instants (seconds since
  the Unix epoch, in UTC), sizes are byte counts.
\<close>

record Query =
  TextTerms :: "string list"
  FromAddrs :: "string list"
  ToAddrs :: "string list"
  CcAddrs :: "string list"
  BccAddrs :: "string list"
  SubjectTerms :: "string list"
  Labels :: "string list"
  HasAttachment :: "bool option"
  BeforeDate :: "int option"
  AfterDate :: "int option"
  LargerThan :: "int option"
  SmallerThan :: "int option"
  AccountID :: "int option"

text \<open>The zero value \<^verbatim>\<open>&Query{}\<close> that \<^verbatim>\<open>Parse\<close> starts from.\<close>

definition emptyQuery :: Query where
  "emptyQuery =
     \<lparr>TextTerms = [], FromAddrs = [], ToAddrs = [], CcAddrs = [], BccAddrs = [],
      SubjectTerms = [], Labels = [], HasAttachment = None, BeforeDate = None,
      AfterDate = None, LargerThan = None, SmallerThan = None, AccountID = None\<rparr>"

definition IsEmpty :: "Query \<Rightarrow> bool" where
  "IsEmpty q =
     (length (TextTerms q) = 0 \<and> length (FromAddrs q) = 0 \<and> length (ToAddrs q) = 0 \<and>
      length (CcAddrs q) = 0 \<and> length (BccAddrs q) = 0 \<and> length (SubjectTerms q) = 0 \<and>
      length (Labels q) = 0 \<and> HasAttachment q = None \<and> BeforeDate q = None \<and>
      AfterDate q = None \<and> LargerThan q = None \<and> SmallerThan q = None)"

text \<open>
  The three value parsers \<^verbatim>\<open>parseDate\<close>, \<^verbatim>\<open>parseRelativeDate\<close> and \<^verbatim>\<open>parseSize\<close> rest on
  \<^verbatim>\<open>time.Parse\<close>, \<^verbatim>\<open>time.Now\<close>, a regular expression and floating-point arithmetic of the Go
  library. Each returns nil or a value and never panics. They are parameters of the model:
  every theorem about \<^verbatim>\<open>Parse\<close> below holds whatever they return.
\<close>

record helpers =
  parseDate :: "string \<Rightarrow> int option"
  parseRelativeDate :: "string \<Rightarrow> int option"
  parseSize :: "string \<Rightarrow> int option"

text \<open>
  A library in which no string is a date or a size. It serves to evaluate \<^verbatim>\<open>Parse\<close> on
  concrete queries.
\<close>

definition rejectAll :: helpers where
  "rejectAll = \<lparr>parseDate = (\<lambda>v. None), parseRelativeDate = (\<lambda>v. None), parseSize = (\<lambda>v. None)\<rparr>"

subsection \<open>tokenize\<close>

text \<open>The local variables of \<^verbatim>\<open>tokenize\<close>; \<open>current\<close> is the \<^verbatim>\<open>strings.Builder\<close>.\<close>

record tokenizer =
  tokens :: "string list"
  current :: string
  inQuotes :: bool
  quoteChar :: char
  afterColon :: bool
  opQuoted :: bool

definition initTokenizer :: tokenizer where
  "initTokenizer =
     \<lparr>tokens = [], current = [], inQuotes = False, quoteChar = CHR 0x00,
      afterColon = False, opQuoted = False\<rparr>"

text \<open>One iteration of the loop over the characters, branch by branch.\<close>

definition tokenizeStep :: "tokenizer \<Rightarrow> char \<Rightarrow> tokenizer" where
  "tokenizeStep s c =
     (if (c = DQ \<or> c = SQ) \<and> \<not> inQuotes s then
        (let s1 = s\<lparr>inQuotes := True, quoteChar := c, opQuoted := afterColon s\<rparr>;
             s2 = (if \<not> afterColon s \<and> length (current s) > 0
                   then s1\<lparr>tokens := tokens s @ [current s], current := []\<rparr>
                   else s1);
             s3 = (if afterColon s then s2\<lparr>current := current s2 @ [c]\<rparr> else s2)
         in s3\<lparr>afterColon := False\<rparr>)
      else if c = quoteChar s \<and> inQuotes s then
        (let s1 = s\<lparr>inQuotes := False\<rparr>;
             s2 = (if opQuoted s
                   then s1\<lparr>tokens := tokens s @ [current s @ [c]], current := []\<rparr>
                   else if length (current s) > 0
                   then s1\<lparr>tokens := tokens s @ [[DQ] @ current s @ [DQ]], current := []\<rparr>
                   else s1)
         in s2\<lparr>quoteChar := CHR 0x00, opQuoted := False\<rparr>)
      else if c = CHR '' '' \<and> \<not> inQuotes s then
        (let s1 = (if length (current s) > 0
                   then s\<lparr>tokens := tokens s @ [current s], current := []\<rparr>
                   else s)
         in s1\<lparr>afterColon := False\<rparr>)
      else s\<lparr>current := current s @ [c], afterColon := (c = CHR '':'')\<rparr>)"

definition scan :: "tokenizer \<Rightarrow> string \<Rightarrow> tokenizer" where
  "scan s cs = foldl tokenizeStep s cs"

text \<open>After the loop, a non-empty builder is the last token.\<close>

definition finish :: "tokenizer \<Rightarrow> string list" where
  "finish s = (if length (current s) > 0 then tokens s @ [current s] else tokens s)"

definition tokenize :: "string \<Rightarrow> string list" where
  "tokenize queryStr = finish (scan initTokenizer queryStr)"

subsection \<open>Parse\<close>

text \<open>The \<^verbatim>\<open>switch op\<close> of \<^verbatim>\<open>Parse\<close>, with its default branch.\<close>

definition applyOp :: "helpers \<Rightarrow> Query \<Rightarrow> string \<Rightarrow> string \<Rightarrow> string \<Rightarrow> Query" where
  "applyOp h q op v token =
     (if op = ''from'' then q\<lparr>FromAddrs := FromAddrs q @ [ToLower v]\<rparr>
      else if op = ''to'' then q\<lparr>ToAddrs := ToAddrs q @ [ToLower v]\<rparr>
      else if op = ''cc'' then q\<lparr>CcAddrs := CcAddrs q @ [ToLower v]\<rparr>
      else if op = ''bcc'' then q\<lparr>BccAddrs := BccAddrs q @ [ToLower v]\<rparr>
      else if op = ''subject'' then q\<lparr>SubjectTerms := SubjectTerms q @ [v]\<rparr>
      else if op = ''label'' \<or> op = ''l'' then q\<lparr>Labels := Labels q @ [v]\<rparr>
      else if op = ''has'' then
        (if ToLower v = ''attachment'' \<or> ToLower v = ''attachments''
         then q\<lparr>HasAttachment := Some True\<rparr> else q)
      else if op = ''before'' then
        (case parseDate h v of Some t \<Rightarrow> q\<lparr>BeforeDate := Some t\<rparr> | None \<Rightarrow> q)
      else if op = ''after'' then
        (case parseDate h v of Some t \<Rightarrow> q\<lparr>AfterDate := Some t\<rparr> | None \<Rightarrow> q)
      else if op = ''older_than'' then
        (case parseRelativeDate h v of Some t \<Rightarrow> q\<lparr>BeforeDate := Some t\<rparr> | None \<Rightarrow> q)
      else if op = ''newer_than'' then
        (case parseRelativeDate h v of Some t \<Rightarrow> q\<lparr>AfterDate := Some t\<rparr> | None \<Rightarrow> q)
      else if op = ''larger'' then
        (case parseSize h v of Some n \<Rightarrow> q\<lparr>LargerThan := Some n\<rparr> | None \<Rightarrow> q)
      else if op = ''smaller'' then
        (case parseSize h v of Some n \<Rightarrow> q\<lparr>SmallerThan := Some n\<rparr> | None \<Rightarrow> q)
      else q\<lparr>TextTerms := TextTerms q @ [token]\<rparr>)"

text \<open>
  The body of the loop over the tokens. The two slice expressions
  \<^verbatim>\<open>token[1:len(token)-1]\<close> and \<^verbatim>\<open>value[1:len(value)-1]\<close> can panic; \<^verbatim>\<open>token[:idx]\<close> and
  \<^verbatim>\<open>token[idx+1:]\<close> are always in range. \<open>stripQuotes\<close> is the block of the source under
  the comment ``Strip quotes from value''.
\<close>

definition stripQuotes :: "string \<Rightarrow> panic + string" where
  "stripQuotes v =
     (if HasPrefix v [DQ] \<and> HasSuffix v [DQ]
      then slice v 1 (int (length v) - 1)
      else Inr v)"

definition parseToken :: "helpers \<Rightarrow> Query \<Rightarrow> string \<Rightarrow> panic + Query" where
  "parseToken h q token =
     (if HasPrefix token [DQ] \<and> HasSuffix token [DQ] \<and> length token > 2 then
        (case slice token 1 (int (length token) - 1) of
           Inl p \<Rightarrow> Inl p
         | Inr t \<Rightarrow> Inr (q\<lparr>TextTerms := TextTerms q @ [t]\<rparr>))
      else
        (case Index token (CHR '':'') of
           Some idx \<Rightarrow>
             (let op = ToLower (take idx token);
                  v = drop (idx + 1) token
              in case stripQuotes v of
                   Inl p \<Rightarrow> Inl p
                 | Inr v' \<Rightarrow> Inr (applyOp h q op v' token))
         | None \<Rightarrow> Inr (q\<lparr>TextTerms := TextTerms q @ [token]\<rparr>)))"

fun parseTokens :: "helpers \<Rightarrow> Query \<Rightarrow> string list \<Rightarrow> panic + Query" where
  "parseTokens h q [] = Inr q"
| "parseTokens h q (t # ts) =
     (case parseToken h q t of
        Inl p \<Rightarrow> Inl p
      | Inr q' \<Rightarrow> parseTokens h q' ts)"

definition Parse :: "helpers \<Rightarrow> string \<Rightarrow> panic + Query" where
  "Parse h queryStr = parseTokens h emptyQuery (tokenize queryStr)"

text \<open>The operator names that the \<^verbatim>\<open>switch\<close> of \<^verbatim>\<open>Parse\<close> has a case for.\<close>

definition knownOps :: "string list" where
  "knownOps = [''from'', ''to'', ''cc'', ''bcc'', ''subject'', ''label'', ''l'', ''has'',
     ''before'', ''after'', ''older_than'', ''newer_than'', ''larger'', ''smaller'']"

section \<open>Incremental sync (package sync)\<close>

subsection \<open>Errors\<close>

text \<open>
  The errors that the store and the Gmail client return. \<^verbatim>\<open>*gmail.NotFoundError\<close> carries the
  request path; any other error is a message; \<open>Wrapped\<close> is an error that wraps another one
  (\<^verbatim>\<open>%w\<close>). \<^verbatim>\<open>errors.As(err, &notFound)\<close> looks through the wrapping.
\<close>

datatype error = NotFoundError string | OtherError string | Wrapped string error

fun isNotFound :: "error \<Rightarrow> bool" where
  "isNotFound (NotFoundError path) = True"
| "isNotFound (OtherError msg) = False"
| "isNotFound (Wrapped msg e) = isNotFound e"

text \<open>
  The errors that \<^verbatim>\<open>Incremental\<close> returns: the sentinel \<^verbatim>\<open>ErrHistoryExpired\<close>, and one
  constructor for each \<^verbatim>\<open>fmt.Errorf\<close> of the function, holding what the format string is
  applied to:
  \<^verbatim>\<open>"get source: %w"\<close>, \<^verbatim>\<open>"no source found for %s - run full sync first"\<close>,
  \<^verbatim>\<open>"no history ID for %s - run full sync first"\<close>, \<^verbatim>\<open>"invalid history ID %q: %w"\<close>,
  \<^verbatim>\<open>"start sync: %w"\<close>, \<^verbatim>\<open>"get profile: %w"\<close>, \<^verbatim>\<open>"sync labels: %w"\<close>, \<^verbatim>\<open>"list history: %w"\<close>.
  The sentinel belongs to package sync, which the store and the client do not import, so
  it is not among the errors they return.
\<close>

datatype sync_error =
    ErrHistoryExpired
  | GetSourceFailed error
  | NoSourceFound string
  | NoHistoryID string
  | InvalidHistoryID string
  | StartSyncFailed error
  | GetProfileFailed error
  | SyncLabelsFailed error
  | ListHistoryFailed error

text \<open>
  The reason handed to \<^verbatim>\<open>FailSync\<close>: a string literal of the source, or the text
  \<^verbatim>\<open>err.Error()\<close> of an error.
\<close>

datatype reason = Message string | ErrorOf error

subsection \<open>Data\<close>

text \<open>
  The structs of package gmail (\<^verbatim>\<open>api.go\<close>) and the fields of \<^verbatim>\<open>store.Source\<close> and
  \<^verbatim>\<open>store.Checkpoint\<close> that \<^verbatim>\<open>Incremental\<close> reads and writes. A field \<open>F\<close> of struct \<open>S\<close> is
  \<open>S_F\<close>. History ids are \<^verbatim>\<open>uint64\<close>; they are only compared, parsed and printed, so they
  are natural numbers here (the parser enforces the 64-bit range). The \<^verbatim>\<open>int64\<close> counters
  are only incremented by one. A Go map is an association list read with \<open>map_of\<close>.
\<close>

record NullString =
  NullString_String :: string
  NullString_Valid :: bool

record Source =
  Source_ID :: int
  Source_SyncCursor :: NullString

record Profile =
  Profile_EmailAddress :: string
  Profile_MessagesTotal :: int
  Profile_ThreadsTotal :: int
  Profile_HistoryID :: nat

record MessageID =
  MessageID_ID :: string
  MessageID_ThreadID :: string

record RawMessage =
  RawMessage_ID :: string
  RawMessage_ThreadID :: string
  RawMessage_LabelIDs :: "string list"
  RawMessage_Snippet :: string
  RawMessage_HistoryID :: nat
  RawMessage_InternalDate :: int
  RawMessage_SizeEstimate :: int
  RawMessage_Raw :: string

record HistoryMessage =
  HistoryMessage_Message :: MessageID

record HistoryLabelChange =
  HistoryLabelChange_Message :: MessageID
  HistoryLabelChange_LabelIDs :: "string list"

record HistoryRecord =
  HistoryRecord_ID :: nat
  HistoryRecord_MessagesAdded :: "HistoryMessage list"
  HistoryRecord_MessagesDeleted :: "HistoryMessage list"
  HistoryRecord_LabelsAdded :: "HistoryLabelChange list"
  HistoryRecord_LabelsRemoved :: "HistoryLabelChange list"

record HistoryResponse =
  HistoryResponse_History :: "HistoryRecord list"
  HistoryResponse_NextPageToken :: string
  HistoryResponse_HistoryID :: nat

record Checkpoint =
  Checkpoint_PageToken :: string
  Checkpoint_MessagesProcessed :: int
  Checkpoint_MessagesAdded :: int
  Checkpoint_MessagesUpdated :: int
  Checkpoint_ErrorsCount :: int

record SyncSummary =
  SyncSummary_StartTime :: int
  SyncSummary_EndTime :: int
  SyncSummary_Duration :: int
  SyncSummary_MessagesFound :: int
  SyncSummary_MessagesAdded :: int
  SyncSummary_MessagesUpdated :: int
  SyncSummary_MessagesSkipped :: int
  SyncSummary_BytesDownloaded :: int
  SyncSummary_Errors :: int
  SyncSummary_FinalHistoryID :: nat
  SyncSummary_WasResumed :: bool
  SyncSummary_ResumedFromToken :: string

type_synonym labelMap = "(string \<times> int) list"

text \<open>The zero values \<^verbatim>\<open>&store.Checkpoint{}\<close> and \<^verbatim>\<open>&gmail.SyncSummary{StartTime: startTime}\<close>.\<close>

definition emptyCheckpoint :: Checkpoint where
  "emptyCheckpoint =
     \<lparr>Checkpoint_PageToken = [], Checkpoint_MessagesProcessed = 0, Checkpoint_MessagesAdded = 0,
      Checkpoint_MessagesUpdated = 0, Checkpoint_ErrorsCount = 0\<rparr>"

definition newSummary :: "int \<Rightarrow> SyncSummary" where
  "newSummary startTime =
     \<lparr>SyncSummary_StartTime = startTime, SyncSummary_EndTime = 0, SyncSummary_Duration = 0,
      SyncSummary_MessagesFound = 0, SyncSummary_MessagesAdded = 0,
      SyncSummary_MessagesUpdated = 0, SyncSummary_MessagesSkipped = 0,
      SyncSummary_BytesDownloaded = 0, SyncSummary_Errors = 0, SyncSummary_FinalHistoryID = 0,
      SyncSummary_WasResumed = False, SyncSummary_ResumedFromToken = []\<rparr>"

subsection \<open>\<^verbatim>\<open>strconv.ParseUint(s, 10, 64)\<close> and \<^verbatim>\<open>strconv.FormatUint(n, 10)\<close>\<close>

definition digitVal :: "char \<Rightarrow> nat option" where
  "digitVal c = map_of (zip ''0123456789'' [0, 1, 2, 3, 4, 5, 6, 7, 8, 9]) c"

fun parseDigits :: "nat \<Rightarrow> string \<Rightarrow> nat option" where
  "parseDigits acc [] = Some acc"
| "parseDigits acc (c # cs) =
     (case digitVal c of
        None \<Rightarrow> None
      | Some d \<Rightarrow> parseDigits (acc * 10 + d) cs)"

text \<open>Empty input, a sign or any other non-digit, and a value above \<open>2^64 - 1\<close> are errors.\<close>

definition ParseUint :: "string \<Rightarrow> nat option" where
  "ParseUint s =
     (if s = [] then None
      else case parseDigits 0 s of
             None \<Rightarrow> None
           | Some n \<Rightarrow> if n < 2 ^ 64 then Some n else None)"

definition digitChar :: "nat \<Rightarrow> char" where
  "digitChar d = ''0123456789'' ! d"

fun FormatUint :: "nat \<Rightarrow> string" where
  "FormatUint n = (if n < 10 then [digitChar n] else FormatUint (n div 10) @ [digitChar (n mod 10)])"

declare FormatUint.simps [simp del]

subsection \<open>The store, the client and the log of their calls\<close>

text \<open>
  \<^verbatim>\<open>Incremental\<close> works on a store (\<^verbatim>\<open>s.store\<close>), a Gmail client (\<^verbatim>\<open>s.client\<close>, the
  interface \<^verbatim>\<open>gmail.API\<close>), a progress observer (\<^verbatim>\<open>s.progress\<close>) and two methods of the syncer
  defined in another file, \<^verbatim>\<open>syncLabels\<close> and \<^verbatim>\<open>ingestMessage\<close>. Every call to one of them is
  an event, logged with its arguments and its result. What a call returns may depend on
  everything that happened before, so each operation is a function of the log so far.
  Writes to the logger are not modelled, and neither is a panic inside a collaborator
  (which the deferred handler of \<^verbatim>\<open>Incremental\<close> would turn into \<^verbatim>\<open>FailSync\<close>).
\<close>

datatype event =
    EvGetSourceByIdentifier string "error + Source option"
  | EvStartSync int string "error + int"
  | EvFailSync int reason "error option"
  | EvCompleteSync int string "error option"
  | EvUpdateSyncCheckpoint int Checkpoint "error option"
  | EvUpdateSourceSyncCursor int string "error option"
  | EvMarkMessageDeleted int string "error option"
  | EvMessageExistsBatch int "string list" "error + (string \<times> int) list"
  | EvReplaceMessageLabels int "int list" "error option"
  | EvGetProfile "error + Profile"
  | EvListHistory nat string "error + HistoryResponse"
  | EvGetMessageRaw string "error + RawMessage"
  | EvSyncLabels int "error + labelMap"
  | EvIngestMessage int RawMessage string labelMap "error option"
  | EvOnProgress int int int
  | EvOnComplete SyncSummary

type_synonym trace = "event list"

record env =
  GetSourceByIdentifier :: "trace \<Rightarrow> string \<Rightarrow> error + Source option"
  StartSync :: "trace \<Rightarrow> int \<Rightarrow> string \<Rightarrow> error + int"
  FailSync :: "trace \<Rightarrow> int \<Rightarrow> reason \<Rightarrow> error option"
  CompleteSync :: "trace \<Rightarrow> int \<Rightarrow> string \<Rightarrow> error option"
  UpdateSyncCheckpoint :: "trace \<Rightarrow> int \<Rightarrow> Checkpoint \<Rightarrow> error option"
  UpdateSourceSyncCursor :: "trace \<Rightarrow> int \<Rightarrow> string \<Rightarrow> error option"
  MarkMessageDeleted :: "trace \<Rightarrow> int \<Rightarrow> string \<Rightarrow> error option"
  MessageExistsBatch :: "trace \<Rightarrow> int \<Rightarrow> string list \<Rightarrow> error + (string \<times> int) list"
  ReplaceMessageLabels :: "trace \<Rightarrow> int \<Rightarrow> int list \<Rightarrow> error option"
  GetProfile :: "trace \<Rightarrow> error + Profile"
  ListHistory :: "trace \<Rightarrow> nat \<Rightarrow> string \<Rightarrow> error + HistoryResponse"
  GetMessageRaw :: "trace \<Rightarrow> string \<Rightarrow> error + RawMessage"
  syncLabels :: "trace \<Rightarrow> int \<Rightarrow> error + labelMap"
  ingestMessage :: "trace \<Rightarrow> int \<Rightarrow> RawMessage \<Rightarrow> string \<Rightarrow> labelMap \<Rightarrow> error option"
  Now :: "trace \<Rightarrow> int"

text \<open>A call asks the environment and appends the event to the log.\<close>

definition callGetSourceByIdentifier ::
  "env \<Rightarrow> string \<Rightarrow> trace \<Rightarrow> (error + Source option) \<times> trace" where
  "callGetSourceByIdentifier E email tr =
     (let r = GetSourceByIdentifier E tr email in (r, tr @ [EvGetSourceByIdentifier email r]))"

definition callStartSync :: "env \<Rightarrow> int \<Rightarrow> string \<Rightarrow> trace \<Rightarrow> (error + int) \<times> trace" where
  "callStartSync E sourceID kind tr =
     (let r = StartSync E tr sourceID kind in (r, tr @ [EvStartSync sourceID kind r]))"

definition callFailSync :: "env \<Rightarrow> int \<Rightarrow> reason \<Rightarrow> trace \<Rightarrow> error option \<times> trace" where
  "callFailSync E syncID why tr =
     (let r = FailSync E tr syncID why in (r, tr @ [EvFailSync syncID why r]))"

definition callCompleteSync :: "env \<Rightarrow> int \<Rightarrow> string \<Rightarrow> trace \<Rightarrow> error option \<times> trace" where
  "callCompleteSync E syncID cursor tr =
     (let r = CompleteSync E tr syncID cursor in (r, tr @ [EvCompleteSync syncID cursor r]))"

definition callUpdateSyncCheckpoint ::
  "env \<Rightarrow> int \<Rightarrow> Checkpoint \<Rightarrow> trace \<Rightarrow> error option \<times> trace" where
  "callUpdateSyncCheckpoint E syncID cp tr =
     (let r = UpdateSyncCheckpoint E tr syncID cp in (r, tr @ [EvUpdateSyncCheckpoint syncID cp r]))"

definition callUpdateSourceSyncCursor ::
  "env \<Rightarrow> int \<Rightarrow> string \<Rightarrow> trace \<Rightarrow> error option \<times> trace" where
  "callUpdateSourceSyncCursor E sourceID cursor tr =
     (let r = UpdateSourceSyncCursor E tr sourceID cursor
      in (r, tr @ [EvUpdateSourceSyncCursor sourceID cursor r]))"

definition callMarkMessageDeleted ::
  "env \<Rightarrow> int \<Rightarrow> string \<Rightarrow> trace \<Rightarrow> error option \<times> trace" where
  "callMarkMessageDeleted E sourceID messageID tr =
     (let r = MarkMessageDeleted E tr sourceID messageID
      in (r, tr @ [EvMarkMessageDeleted sourceID messageID r]))"

definition callMessageExistsBatch ::
  "env \<Rightarrow> int \<Rightarrow> string list \<Rightarrow> trace \<Rightarrow> (error + (string \<times> int) list) \<times> trace" where
  "callMessageExistsBatch E sourceID ids tr =
     (let r = MessageExistsBatch E tr sourceID ids
      in (r, tr @ [EvMessageExistsBatch sourceID ids r]))"

definition callReplaceMessageLabels ::
  "env \<Rightarrow> int \<Rightarrow> int list \<Rightarrow> trace \<Rightarrow> error option \<times> trace" where
  "callReplaceMessageLabels E internalID labelIDs tr =
     (let r = ReplaceMessageLabels E tr internalID labelIDs
      in (r, tr @ [EvReplaceMessageLabels internalID labelIDs r]))"

definition callGetProfile :: "env \<Rightarrow> trace \<Rightarrow> (error + Profile) \<times> trace" where
  "callGetProfile E tr = (let r = GetProfile E tr in (r, tr @ [EvGetProfile r]))"

definition callListHistory ::
  "env \<Rightarrow> nat \<Rightarrow> string \<Rightarrow> trace \<Rightarrow> (error + HistoryResponse) \<times> trace" where
  "callListHistory E startHistoryID pageToken tr =
     (let r = ListHistory E tr startHistoryID pageToken
      in (r, tr @ [EvListHistory startHistoryID pageToken r]))"

definition callGetMessageRaw :: "env \<Rightarrow> string \<Rightarrow> trace \<Rightarrow> (error + RawMessage) \<times> trace" where
  "callGetMessageRaw E messageID tr =
     (let r = GetMessageRaw E tr messageID in (r, tr @ [EvGetMessageRaw messageID r]))"

definition callSyncLabels :: "env \<Rightarrow> int \<Rightarrow> trace \<Rightarrow> (error + labelMap) \<times> trace" where
  "callSyncLabels E sourceID tr =
     (let r = syncLabels E tr sourceID in (r, tr @ [EvSyncLabels sourceID r]))"

definition callIngestMessage ::
  "env \<Rightarrow> int \<Rightarrow> RawMessage \<Rightarrow> string \<Rightarrow> labelMap \<Rightarrow> trace \<Rightarrow> error option \<times> trace" where
  "callIngestMessage E sourceID raw threadID lm tr =
     (let r = ingestMessage E tr sourceID raw threadID lm
      in (r, tr @ [EvIngestMessage sourceID raw threadID lm r]))"

subsection \<open>\<^verbatim>\<open>handleLabelChange\<close>\<close>

text \<open>
  The loop over \<^verbatim>\<open>raw.LabelIDs\<close> keeps, in order, the internal id of every Gmail label id
  that the label map knows. The parameter \<^verbatim>\<open>gmailLabelIDs\<close> is not read by the source.
\<close>

definition handleLabelChange ::
  "env \<Rightarrow> int \<Rightarrow> string \<Rightarrow> string \<Rightarrow> string list \<Rightarrow> labelMap \<Rightarrow> bool \<Rightarrow> trace
     \<Rightarrow> error option \<times> trace" where
  "handleLabelChange E sourceID messageID threadID gmailLabelIDs lm isAdd tr =
     (case callMessageExistsBatch E sourceID [messageID] tr of
        (Inl err, tr1) \<Rightarrow> (Some err, tr1)
      | (Inr existing, tr1) \<Rightarrow>
          (case map_of existing messageID of
             None \<Rightarrow>
               if isAdd then
                 (case callGetMessageRaw E messageID tr1 of
                    (Inl err, tr2) \<Rightarrow> (Some err, tr2)
                  | (Inr raw, tr2) \<Rightarrow> callIngestMessage E sourceID raw threadID lm tr2)
               else (None, tr1)
           | Some internalID \<Rightarrow>
               (case callGetMessageRaw E messageID tr1 of
                  (Inl err, tr2) \<Rightarrow> (Some err, tr2)
                | (Inr raw, tr2) \<Rightarrow>
                    callReplaceMessageLabels E internalID
                      (List.map_filter (map_of lm) (RawMessage_LabelIDs raw)) tr2)))"

subsection \<open>\<^verbatim>\<open>Incremental\<close>\<close>

text \<open>
  The state of the history loop: the checkpoint, the summary and the log. The four inner
  loops over one history record follow.
\<close>

type_synonym loopState = "Checkpoint \<times> SyncSummary \<times> trace"

definition processAdded :: "env \<Rightarrow> int \<Rightarrow> labelMap \<Rightarrow> loopState \<Rightarrow> HistoryMessage \<Rightarrow> loopState" where
  "processAdded E sourceID lm st added =
     (case st of (cp, sm, tr) \<Rightarrow>
        (case callGetMessageRaw E (MessageID_ID (HistoryMessage_Message added)) tr of
           (Inl err, tr1) \<Rightarrow>
             if isNotFound err then (cp, sm, tr1)
             else (cp\<lparr>Checkpoint_ErrorsCount := Checkpoint_ErrorsCount cp + 1\<rparr>, sm, tr1)
         | (Inr raw, tr1) \<Rightarrow>
             (case callIngestMessage E sourceID raw
                     (MessageID_ThreadID (HistoryMessage_Message added)) lm tr1 of
                (Some err, tr2) \<Rightarrow>
                  (cp\<lparr>Checkpoint_ErrorsCount := Checkpoint_ErrorsCount cp + 1\<rparr>, sm, tr2)
              | (None, tr2) \<Rightarrow>
                  (cp\<lparr>Checkpoint_MessagesAdded := Checkpoint_MessagesAdded cp + 1\<rparr>,
                   sm\<lparr>SyncSummary_BytesDownloaded :=
                        SyncSummary_BytesDownloaded sm + int (length (RawMessage_Raw raw))\<rparr>,
                   tr2))))"

definition processDeleted :: "env \<Rightarrow> int \<Rightarrow> loopState \<Rightarrow> HistoryMessage \<Rightarrow> loopState" where
  "processDeleted E sourceID st deleted =
     (case st of (cp, sm, tr) \<Rightarrow>
        (case callMarkMessageDeleted E sourceID (MessageID_ID (HistoryMessage_Message deleted)) tr of
           (Some err, tr1) \<Rightarrow>
             (cp\<lparr>Checkpoint_ErrorsCount := Checkpoint_ErrorsCount cp + 1\<rparr>, sm, tr1)
         | (None, tr1) \<Rightarrow> (cp, sm, tr1)))"

text \<open>An error of \<^verbatim>\<open>handleLabelChange\<close> is only logged by the caller.\<close>

definition processLabelChange ::
  "env \<Rightarrow> int \<Rightarrow> labelMap \<Rightarrow> bool \<Rightarrow> loopState \<Rightarrow> HistoryLabelChange \<Rightarrow> loopState" where
  "processLabelChange E sourceID lm isAdd st change =
     (case st of (cp, sm, tr) \<Rightarrow>
        (case handleLabelChange E sourceID
                (MessageID_ID (HistoryLabelChange_Message change))
                (MessageID_ThreadID (HistoryLabelChange_Message change))
                (HistoryLabelChange_LabelIDs change) lm isAdd tr of
           (err, tr1) \<Rightarrow> (cp, sm, tr1)))"

definition processRecord :: "env \<Rightarrow> int \<Rightarrow> labelMap \<Rightarrow> loopState \<Rightarrow> HistoryRecord \<Rightarrow> loopState" where
  "processRecord E sourceID lm st record =
     (let st1 = foldl (processAdded E sourceID lm) st (HistoryRecord_MessagesAdded record);
          st2 = foldl (processDeleted E sourceID) st1 (HistoryRecord_MessagesDeleted record);
          st3 = foldl (processLabelChange E sourceID lm True) st2 (HistoryRecord_LabelsAdded record);
          st4 = foldl (processLabelChange E sourceID lm False) st3
                  (HistoryRecord_LabelsRemoved record)
      in case st4 of (cp, sm, tr) \<Rightarrow>
           (cp\<lparr>Checkpoint_MessagesProcessed := Checkpoint_MessagesProcessed cp + 1\<rparr>, sm, tr))"

text \<open>
  The \<^verbatim>\<open>for\<close> loop over the pages of history. The remote decides how many pages there are,
  so the loop has fuel: \<open>None\<close> means that the fuel ran out before the last page. It
  returns the error with which \<^verbatim>\<open>Incremental\<close> returns from inside the loop, or the state
  at the \<^verbatim>\<open>break\<close>.
\<close>

fun historyLoop ::
  "nat \<Rightarrow> env \<Rightarrow> int \<Rightarrow> int \<Rightarrow> nat \<Rightarrow> labelMap \<Rightarrow> string \<Rightarrow> loopState
     \<Rightarrow> ((sync_error + Checkpoint \<times> SyncSummary) \<times> trace) option" where
  "historyLoop 0 E sourceID syncID startHistoryID lm pageToken st = None"
| "historyLoop (Suc fuel) E sourceID syncID startHistoryID lm pageToken st =
     (case st of (cp, sm, tr) \<Rightarrow>
        (case callListHistory E startHistoryID pageToken tr of
           (Inl err, tr1) \<Rightarrow>
             if isNotFound err then
               (case callFailSync E syncID (Message ''history too old'') tr1 of
                  (r, tr2) \<Rightarrow> Some (Inl ErrHistoryExpired, tr2))
             else
               (case callFailSync E syncID (ErrorOf err) tr1 of
                  (r, tr2) \<Rightarrow> Some (Inl (ListHistoryFailed err), tr2))
         | (Inr historyResp, tr1) \<Rightarrow>
             (case foldl (processRecord E sourceID lm) (cp, sm, tr1)
                     (HistoryResponse_History historyResp) of
                (cp1, sm1, tr2) \<Rightarrow>
                  (let tr3 = tr2 @ [EvOnProgress (Checkpoint_MessagesProcessed cp1)
                                      (Checkpoint_MessagesAdded cp1) 0];
                       pageToken' = HistoryResponse_NextPageToken historyResp;
                       cp2 = cp1\<lparr>Checkpoint_PageToken := pageToken'\<rparr>
                   in case callUpdateSyncCheckpoint E syncID cp2 tr3 of
                        (r, tr4) \<Rightarrow>
                          if pageToken' = [] then Some (Inr (cp2, sm1), tr4)
                          else historyLoop fuel E sourceID syncID startHistoryID lm pageToken'
                                 (cp2, sm1, tr4)))))"

text \<open>
  \<^verbatim>\<open>Incremental\<close>, from the lookup of the source to the summary. \<^verbatim>\<open>time.Now()\<close> is read from
  the environment. The result is \<open>None\<close> only when the history loop runs out of fuel.
\<close>

definition Incremental ::
  "nat \<Rightarrow> env \<Rightarrow> string \<Rightarrow> trace \<Rightarrow> ((sync_error + SyncSummary) \<times> trace) option" where
  "Incremental fuel E email tr =
     (let summary = newSummary (Now E tr) in
      case callGetSourceByIdentifier E email tr of
        (Inl err, tr1) \<Rightarrow> Some (Inl (GetSourceFailed err), tr1)
      | (Inr None, tr1) \<Rightarrow> Some (Inl (NoSourceFound email), tr1)
      | (Inr (Some source), tr1) \<Rightarrow>
          if \<not> NullString_Valid (Source_SyncCursor source)
             \<or> NullString_String (Source_SyncCursor source) = []
          then Some (Inl (NoHistoryID email), tr1)
          else
            (case ParseUint (NullString_String (Source_SyncCursor source)) of
               None \<Rightarrow>
                 Some (Inl (InvalidHistoryID (NullString_String (Source_SyncCursor source))), tr1)
             | Some startHistoryID \<Rightarrow>
                 (case callStartSync E (Source_ID source) ''incremental'' tr1 of
                    (Inl err, tr2) \<Rightarrow> Some (Inl (StartSyncFailed err), tr2)
                  | (Inr syncID, tr2) \<Rightarrow>
                      (case callGetProfile E tr2 of
                         (Inl err, tr3) \<Rightarrow>
                           (case callFailSync E syncID (ErrorOf err) tr3 of
                              (r, tr4) \<Rightarrow> Some (Inl (GetProfileFailed err), tr4))
                       | (Inr profile, tr3) \<Rightarrow>
                           if startHistoryID \<ge> Profile_HistoryID profile then
                             (case callCompleteSync E syncID
                                     (FormatUint (Profile_HistoryID profile)) tr3 of
                                (r, tr4) \<Rightarrow>
                                  Some (Inr (summary
                                          \<lparr>SyncSummary_EndTime := Now E tr4,
                                           SyncSummary_Duration :=
                                             Now E tr4 - SyncSummary_StartTime summary,
                                           SyncSummary_FinalHistoryID :=
                                             Profile_HistoryID profile\<rparr>), tr4))
                           else
                             (case callSyncLabels E (Source_ID source) tr3 of
                                (Inl err, tr4) \<Rightarrow>
                                  (case callFailSync E syncID (ErrorOf err) tr4 of
                                     (r, tr5) \<Rightarrow> Some (Inl (SyncLabelsFailed err), tr5))
                              | (Inr lm, tr4) \<Rightarrow>
                                  (case historyLoop fuel E (Source_ID source) syncID
                                          startHistoryID lm [] (emptyCheckpoint, summary, tr4) of
                                     None \<Rightarrow> None
                                   | Some (Inl e, tr5) \<Rightarrow> Some (Inl e, tr5)
                                   | Some (Inr (cp, sm), tr5) \<Rightarrow>
                                       (let historyIDStr = FormatUint (Profile_HistoryID profile)
                                        in case callUpdateSourceSyncCursor E (Source_ID source)
                                                  historyIDStr tr5 of
                                          (r1, tr6) \<Rightarrow>
                                            (case callCompleteSync E syncID historyIDStr tr6 of
                                               (r2, tr7) \<Rightarrow>
                                                 (let sm' = sm
                                                        \<lparr>SyncSummary_EndTime := Now E tr7,
                                                         SyncSummary_Duration :=
                                                           Now E tr7 - SyncSummary_StartTime sm,
                                                         SyncSummary_MessagesFound :=
                                                           Checkpoint_MessagesProcessed cp,
                                                         SyncSummary_MessagesAdded :=
                                                           Checkpoint_MessagesAdded cp,
                                                         SyncSummary_MessagesUpdated :=
                                                           Checkpoint_MessagesUpdated cp,
                                                         SyncSummary_Errors :=
                                                           Checkpoint_ErrorsCount cp,
                                                         SyncSummary_FinalHistoryID :=
                                                           Profile_HistoryID profile\<rparr>
                                                  in Some (Inr sm', tr7 @ [EvOnComplete sm']))))))))))"

text \<open>
  An environment in the manner of the mock of the tests, to run \<^verbatim>\<open>Incremental\<close> on concrete
  inputs: the store holds one source with the given cursor and the given messages
  (remote id and internal id), every store call succeeds, the profile reports the given
  history id, every \<^verbatim>\<open>ListHistory\<close> gives the given answer, and the mailbox holds the given
  raw messages (another id is a 404). The clock counts the events.
\<close>

definition mockEnv ::
  "NullString \<Rightarrow> (string \<times> int) list \<Rightarrow> nat \<Rightarrow> (error + HistoryResponse)
     \<Rightarrow> (string \<times> RawMessage) list \<Rightarrow> env" where
  "mockEnv cursor stored historyID history mailbox =
     \<lparr>GetSourceByIdentifier =
        (\<lambda>tr email. Inr (Some \<lparr>Source_ID = 1, Source_SyncCursor = cursor\<rparr>)),
      StartSync = (\<lambda>tr sourceID kind. Inr 7),
      FailSync = (\<lambda>tr syncID why. None),
      CompleteSync = (\<lambda>tr syncID cursor. None),
      UpdateSyncCheckpoint = (\<lambda>tr syncID cp. None),
      UpdateSourceSyncCursor = (\<lambda>tr sourceID cursor. None),
      MarkMessageDeleted = (\<lambda>tr sourceID messageID. None),
      MessageExistsBatch = (\<lambda>tr sourceID ids. Inr (filter (\<lambda>(k, v). k \<in> set ids) stored)),
      ReplaceMessageLabels = (\<lambda>tr internalID labelIDs. None),
      GetProfile =
        (\<lambda>tr. Inr \<lparr>Profile_EmailAddress = ''test@example.com'', Profile_MessagesTotal = 10,
                    Profile_ThreadsTotal = 0, Profile_HistoryID = historyID\<rparr>),
      ListHistory = (\<lambda>tr startHistoryID pageToken. history),
      GetMessageRaw =
        (\<lambda>tr messageID. case map_of mailbox messageID of
                           Some raw \<Rightarrow> Inr raw
                         | None \<Rightarrow> Inl (NotFoundError messageID)),
      syncLabels = (\<lambda>tr sourceID. Inr [(''INBOX'', 1), (''STARRED'', 2)]),
      ingestMessage = (\<lambda>tr sourceID raw threadID lm. None),
      Now = (\<lambda>tr. int (length tr))\<rparr>"

text \<open>Whether an event is a \<^verbatim>\<open>ListHistory\<close> call that returned a \<^verbatim>\<open>NotFoundError\<close>.\<close>

fun historyNotFound :: "event \<Rightarrow> bool" where
  "historyNotFound (EvListHistory startHistoryID pageToken (Inl err)) = isNotFound err"
| "historyNotFound ev = False"

section \<open>Deletion executor (package deletion)\<close>

text \<open>
  The file of the executor is not among the sources; its tests are. The manifest, the
  options and \<^verbatim>\<open>Execute\<close> follow section 4.7 of the specification, with the names that the
  tests use.
\<close>

datatype Status = StatusPending | StatusInProgress | StatusCompleted | StatusFailed

datatype Method = MethodTrash | MethodDelete

record Execution =
  Execution_StartedAt :: int
  Execution_Method :: Method
  Execution_Succeeded :: int
  Execution_Failed :: int
  Execution_LastProcessedIndex :: nat
  Execution_FailedIDs :: "string list"

record Manifest =
  Manifest_ID :: string
  Manifest_Name :: string
  Manifest_Status :: Status
  Manifest_GmailIDs :: "string list"
  Manifest_Execution :: "Execution option"

record ExecuteOptions =
  ExecuteOptions_Method :: Method
  ExecuteOptions_BatchSize :: nat
  ExecuteOptions_Resume :: bool

datatype exec_error = ErrInvalidStatus Status | ErrCancelled

text \<open>
  The remote service and the context of one execution. A call is logged with its method,
  its id and its result; a result, and whether the context is found cancelled, may depend
  on the calls made so far.
\<close>

type_synonym deletionLog = "(Method \<times> string \<times> error option) list"

record remote =
  TrashMessage :: "deletionLog \<Rightarrow> string \<Rightarrow> error option"
  DeleteMessage :: "deletionLog \<Rightarrow> string \<Rightarrow> error option"
  Cancelled :: "deletionLog \<Rightarrow> bool"

text \<open>
  Modelled from the spec: the outcome of one per-id call of \<^verbatim>\<open>Execute\<close> (``\<^verbatim>\<open>NotFoundError\<close>
  counts as success (idempotent). Other errors increment failure counter and append to
  \<^verbatim>\<open>failed_ids\<close>'').
\<close>

definition succeededCall :: "Method \<times> string \<times> error option \<Rightarrow> bool" where
  "succeededCall c = (case snd (snd c) of None \<Rightarrow> True | Some err \<Rightarrow> isNotFound err)"

text \<open>
  Modelled from the spec: the per-id call of \<^verbatim>\<open>Execute\<close> (``call \<^verbatim>\<open>trash_message\<close> or
  \<^verbatim>\<open>delete_message\<close>''), as the entry it leaves in the log: the method of the options, the
  id and the result.
\<close>

definition remoteCall ::
  "remote \<Rightarrow> ExecuteOptions \<Rightarrow> deletionLog \<Rightarrow> string \<Rightarrow> Method \<times> string \<times> error option" where
  "remoteCall R opts calls gmailID =
     (ExecuteOptions_Method opts, gmailID,
      (case ExecuteOptions_Method opts of
         MethodTrash \<Rightarrow> TrashMessage R calls gmailID
       | MethodDelete \<Rightarrow> DeleteMessage R calls gmailID))"

text \<open>
  Modelled from the spec: the iteration over the ids of \<^verbatim>\<open>Execute\<close>, from index \<open>i\<close>: on
  cancellation, checkpoint and return the cancellation error; otherwise make the call,
  count the outcome, advance \<^verbatim>\<open>last_processed_index\<close>, and checkpoint every \<^verbatim>\<open>batch_size\<close>
  iterations. The state is the execution record, the log of calls and the checkpoints
  written.
\<close>

fun executeIDs ::
  "remote \<Rightarrow> ExecuteOptions \<Rightarrow> nat \<Rightarrow> string list \<Rightarrow> Execution \<times> deletionLog \<times> Execution list
     \<Rightarrow> exec_error option \<times> Execution \<times> deletionLog \<times> Execution list" where
  "executeIDs R opts i [] st = (None, st)"
| "executeIDs R opts i (gmailID # ids) st =
     (case st of (ex, calls, saved) \<Rightarrow>
        if Cancelled R calls then (Some ErrCancelled, ex, calls, saved @ [ex])
        else
          (let c = remoteCall R opts calls gmailID;
               ex1 = (if succeededCall c
                      then ex\<lparr>Execution_Succeeded := Execution_Succeeded ex + 1\<rparr>
                      else ex\<lparr>Execution_Failed := Execution_Failed ex + 1,
                              Execution_FailedIDs := Execution_FailedIDs ex @ [gmailID]\<rparr>);
               ex2 = ex1\<lparr>Execution_LastProcessedIndex := i + 1\<rparr>;
               saved1 = (if ExecuteOptions_BatchSize opts > 0
                            \<and> (i + 1) mod ExecuteOptions_BatchSize opts = 0
                         then saved @ [ex2] else saved)
           in executeIDs R opts (i + 1) ids (ex2, calls @ [c], saved1)))"

text \<open>
  Modelled from the spec: the execution record that \<^verbatim>\<open>Execute\<close> works on. A pending manifest
  gets a fresh one (``sets \<^verbatim>\<open>started_at\<close>, \<^verbatim>\<open>method\<close>''); a manifest in progress keeps its own.
\<close>

definition startExecution :: "ExecuteOptions \<Rightarrow> int \<Rightarrow> Manifest \<Rightarrow> Execution" where
  "startExecution opts now m =
     (case (Manifest_Status m, Manifest_Execution m) of
        (StatusInProgress, Some ex) \<Rightarrow> ex
      | _ \<Rightarrow> \<lparr>Execution_StartedAt = now, Execution_Method = ExecuteOptions_Method opts,
              Execution_Succeeded = 0, Execution_Failed = 0, Execution_LastProcessedIndex = 0,
              Execution_FailedIDs = []\<rparr>)"

text \<open>
  Modelled from the spec: the index at which \<^verbatim>\<open>Execute\<close> begins (``If \<^verbatim>\<open>resume\<close>, begins at
  \<^verbatim>\<open>last_processed_index\<close>'').
\<close>

definition startIndex :: "ExecuteOptions \<Rightarrow> int \<Rightarrow> Manifest \<Rightarrow> nat" where
  "startIndex opts now m =
     (if ExecuteOptions_Resume opts
      then Execution_LastProcessedIndex (startExecution opts now m) else 0)"

text \<open>
  Modelled from the spec: \<^verbatim>\<open>Executor.Execute\<close>. A manifest that is neither pending nor in
  progress is refused. Otherwise the manifest moves to \<^verbatim>\<open>in_progress\<close> and the ids are
  processed; a cancellation leaves it there; on completion it moves to \<^verbatim>\<open>completed\<close> if at
  least one id succeeded and to \<^verbatim>\<open>failed\<close> otherwise.
\<close>

definition Execute ::
  "remote \<Rightarrow> ExecuteOptions \<Rightarrow> int \<Rightarrow> Manifest \<Rightarrow> deletionLog
     \<Rightarrow> exec_error option \<times> Manifest \<times> deletionLog \<times> Execution list" where
  "Execute R opts now m calls =
     (if Manifest_Status m \<noteq> StatusPending \<and> Manifest_Status m \<noteq> StatusInProgress
      then (Some (ErrInvalidStatus (Manifest_Status m)), m, calls, [])
      else
        (case executeIDs R opts (startIndex opts now m)
                (drop (startIndex opts now m) (Manifest_GmailIDs m))
                (startExecution opts now m, calls, []) of
           (Some err, ex, calls1, saved) \<Rightarrow>
             (Some err, m\<lparr>Manifest_Status := StatusInProgress, Manifest_Execution := Some ex\<rparr>,
              calls1, saved)
         | (None, ex, calls1, saved) \<Rightarrow>
             (None,
              m\<lparr>Manifest_Status :=
                   (if Execution_Succeeded ex \<ge> 1 then StatusCompleted else StatusFailed),
                Manifest_Execution := Some ex\<rparr>,
              calls1, saved)))"

text \<open>
  A remote in the manner of the mock of the tests: the ids in the table fail with the
  given error, every other call succeeds, and the context is never cancelled.
\<close>

definition mockRemote :: "(string \<times> error) list \<Rightarrow> remote" where
  "mockRemote errors =
     \<lparr>TrashMessage = (\<lambda>calls gmailID. map_of errors gmailID),
      DeleteMessage = (\<lambda>calls gmailID. map_of errors gmailID),
      Cancelled = (\<lambda>calls. False)\<rparr>"

section \<open>Rate limiter (package gmail)\<close>

text \<open>
  The file of the rate limiter is not among the sources; its tests are. Times are instants
  and durations in nanoseconds; token counts and rates are rational numbers. The field
  \<^verbatim>\<open>tokens\<close> of the limiter is \<open>tokens_left\<close> here.
\<close>

record RateLimiter =
  capacity :: rat
  tokens_left :: rat
  refillRate :: rat
  minRefillRate :: rat
  throttledUntil :: int

text \<open>
  Modelled from the spec: \<^verbatim>\<open>RateLimiter.Throttle\<close> (section 4.1: ``forces zero tokens for
  \<^verbatim>\<open>duration\<close>; also halves \<^verbatim>\<open>refill_rate\<close> (floor at min QPS). Never shortens an existing
  throttle window. If called while throttled, extends only if
  \<^verbatim>\<open>now + duration > current_until\<close>''). The first argument is the clock reading of the call,
  taken under the mutex of the limiter.
\<close>

definition Throttle :: "int \<Rightarrow> int \<Rightarrow> RateLimiter \<Rightarrow> RateLimiter" where
  "Throttle now duration rl =
     rl\<lparr>tokens_left := 0,
        refillRate := max (minRefillRate rl) (refillRate rl / 2),
        throttledUntil :=
          (if now + duration > throttledUntil rl then now + duration else throttledUntil rl)\<rparr>"

text \<open>
  Modelled from the spec: a run of \<^verbatim>\<open>Throttle\<close> calls on one limiter. All the state is
  under a single mutex, so concurrent calls take effect one after the other, in some
  order, each with its own clock reading and duration.
\<close>

definition throttleAll :: "(int \<times> int) list \<Rightarrow> RateLimiter \<Rightarrow> RateLimiter" where
  "throttleAll calls rl = foldl (\<lambda>r (now, duration). Throttle now duration r) rl calls"

section \<open>Dates of an ingested message (packages mime and sync)\<close>

text \<open>
  The MIME parser and the ingestion step are not among the sources; their tests are. A
  time is an instant (milliseconds since the Unix epoch) shown in a zone (its offset from
  UTC in seconds). The zero time of Go is midnight of January 1 of year 1, UTC.
\<close>

record Time =
  instant :: int
  zoneOffset :: int

definition zeroTime :: Time where
  "zeroTime = \<lparr>instant = - 62135596800000, zoneOffset = 0\<rparr>"

definition IsZero :: "Time \<Rightarrow> bool" where
  "IsZero t = (instant t = - 62135596800000)"

definition UTC :: "Time \<Rightarrow> Time" where
  "UTC t = t\<lparr>zoneOffset := 0\<rparr>"

definition UnixMilli :: "int \<Rightarrow> Time" where
  "UnixMilli ms = \<lparr>instant = ms, zoneOffset = 0\<rparr>"

text \<open>
  Modelled from the spec: the search of \<^verbatim>\<open>parseDate\<close> of package mime through its ``fixed
  ordered list of formats''. The list and \<^verbatim>\<open>time.Parse\<close> are parameters.
\<close>

fun firstLayout :: "(string \<Rightarrow> string \<Rightarrow> Time option) \<Rightarrow> string list \<Rightarrow> string \<Rightarrow> Time option" where
  "firstLayout timeParse [] s = None"
| "firstLayout timeParse (layout # layouts) s =
     (case timeParse layout s of
        Some t \<Rightarrow> Some t
      | None \<Rightarrow> firstLayout timeParse layouts s)"

text \<open>
  Modelled from the spec: \<^verbatim>\<open>parseDate\<close> of package mime (section 4.3: ``all parsed times
  are normalized to UTC. Unparseable dates return a zero time without error'').
\<close>

definition mimeParseDate :: "(string \<Rightarrow> string \<Rightarrow> Time option) \<Rightarrow> string list \<Rightarrow> string \<Rightarrow> Time" where
  "mimeParseDate timeParse layouts s =
     (case firstLayout timeParse layouts s of
        Some t \<Rightarrow> UTC t
      | None \<Rightarrow> zeroTime)"

text \<open>The two date columns of a stored message.\<close>

record MessageDates =
  SentAt :: Time
  InternalDate :: Time

text \<open>
  Modelled from the spec: the dates that the ingestion step of the syncer stores for a
  message with the given \<^verbatim>\<open>Date\<close> header and the given \<^verbatim>\<open>internal_date\<close> of the raw message
  (section 4.5, step 4: ``set \<^verbatim>\<open>sent_at = parsed_date ?? internal_date\<close>'').
\<close>

definition ingestDates ::
  "(string \<Rightarrow> string \<Rightarrow> Time option) \<Rightarrow> string list \<Rightarrow> string \<Rightarrow> int \<Rightarrow> MessageDates" where
  "ingestDates timeParse layouts dateHeader internalDate =
     (let parsed = mimeParseDate timeParse layouts dateHeader;
          internal = UnixMilli internalDate
      in \<lparr>SentAt = (if IsZero parsed then internal else parsed), InternalDate = internal\<rparr>)"

text \<open>
  A \<^verbatim>\<open>time.Parse\<close> that knows one date, the one of the tests, to evaluate the definitions on
  concrete inputs: 15:04:05 on January 2, 2006, in the zone -0700.
\<close>

definition oneDate :: "string \<Rightarrow> string \<Rightarrow> Time option" where
  "oneDate layout s =
     (if layout = ''Mon, 02 Jan 2006 15:04:05 -0700'' \<and> s = ''Mon, 02 Jan 2006 15:04:05 -0700''
      then Some \<lparr>instant = 1136239445000, zoneOffset = - 25200\<rparr>
      else None)"

section \<open>Auxiliary notions for the properties\<close>

text \<open>
  A log \<open>tr'\<close> extends a log \<open>tr\<close> quietly when the events added hold no \<^verbatim>\<open>ListHistory\<close> call
  that returned a \<^verbatim>\<open>NotFoundError\<close>.
\<close>

definition quietExtension :: "trace \<Rightarrow> trace \<Rightarrow> bool" where
  "quietExtension tr tr' = (\<exists>new. tr' = tr @ new \<and> (\<forall>ev \<in> set new. \<not> historyNotFound ev))"

text \<open>
  The new events of a run end like an expired run: a \<^verbatim>\<open>ListHistory\<close> call that returned a
  \<^verbatim>\<open>NotFoundError\<close>, then \<^verbatim>\<open>FailSync\<close> on the run with the reason ``history too old''.
\<close>

definition expiredEnd :: "int \<Rightarrow> trace \<Rightarrow> bool" where
  "expiredEnd syncID new =
     (\<exists>pre s t e r. new = pre @ [EvListHistory s t (Inl e),
                                  EvFailSync syncID (Message ''history too old'') r]
                     \<and> isNotFound e)"

text \<open>
  The environments of four tests of the syncer: an expired history
  (\<^verbatim>\<open>TestIncrementalSyncHistoryExpired\<close>) with the log of its run, a source without cursor
  (\<^verbatim>\<open>TestIncrementalSyncNoHistoryID\<close>), a cursor equal to the history id of the profile
  (\<^verbatim>\<open>TestIncrementalSyncAlreadyUpToDate\<close>), and a store that holds message \<open>msg3\<close> while the
  mailbox also holds \<open>new1\<close>.
\<close>

definition expiredEnv :: env where
  "expiredEnv = mockEnv \<lparr>NullString_String = ''1000'', NullString_Valid = True\<rparr> [] 12350
     (Inl (NotFoundError ''/history'')) []"

definition expiredTrace :: trace where
  "expiredTrace =
       [EvGetSourceByIdentifier ''test@example.com''
          (Inr (Some \<lparr>Source_ID = 1,
             Source_SyncCursor = \<lparr>NullString_String = ''1000'', NullString_Valid = True\<rparr>\<rparr>)),
        EvStartSync 1 ''incremental'' (Inr 7),
        EvGetProfile (Inr \<lparr>Profile_EmailAddress = ''test@example.com'', Profile_MessagesTotal = 10,
                    Profile_ThreadsTotal = 0, Profile_HistoryID = 12350\<rparr>),
        EvSyncLabels 1 (Inr [(''INBOX'', 1), (''STARRED'', 2)]),
        EvListHistory 1000 [] (Inl (NotFoundError ''/history'')),
        EvFailSync 7 (Message ''history too old'') None]"

definition noCursorEnv :: env where
  "noCursorEnv = mockEnv \<lparr>NullString_String = [], NullString_Valid = False\<rparr> [] 1000
     (Inr \<lparr>HistoryResponse_History = [], HistoryResponse_NextPageToken = [],
           HistoryResponse_HistoryID = 1000\<rparr>) []"

definition upToDateEnv :: env where
  "upToDateEnv = mockEnv \<lparr>NullString_String = ''12345'', NullString_Valid = True\<rparr> [] 12345
     (Inr \<lparr>HistoryResponse_History = [], HistoryResponse_NextPageToken = [],
           HistoryResponse_HistoryID = 12345\<rparr>) []"



text \<open>
  The remote, the manifest and the options of \<^verbatim>\<open>TestExecutor_Execute_DeletionMock_MixedErrors\<close>:
  five ids, of which \<open>msg2\<close> is a 404 and \<open>msg4\<close> fails with a server error.
\<close>

definition mixedRemote :: remote where
  "mixedRemote = mockRemote [(''msg2'', NotFoundError ''/users/me/messages/msg2/trash''),
     (''msg4'', OtherError ''server error'')]"

definition mixedManifest :: Manifest where
  "mixedManifest =
     \<lparr>Manifest_ID = ''01'', Manifest_Name = ''mixed errors test'',
      Manifest_Status = StatusPending,
      Manifest_GmailIDs = [''msg1'', ''msg2'', ''msg3'', ''msg4'', ''msg5''],
      Manifest_Execution = None\<rparr>"

definition defaultOptions :: ExecuteOptions where
  "defaultOptions =
     \<lparr>ExecuteOptions_Method = MethodTrash, ExecuteOptions_BatchSize = 100,
      ExecuteOptions_Resume = True\<rparr>"

text \<open>
  Two layouts for the evaluation of \<open>mimeParseDate\<close> on concrete headers.
\<close>

definition testLayouts :: "string list" where
  "testLayouts = [''Mon, 02 Jan 2006 15:04:05 -0700'', ''2006-01-02T15:04:05Z07:00'']"

section \<open>Properties of the query parser\<close>

subsection \<open>The tokenizer\<close>

lemma scan_Nil: "scan s [] = s" by (simp add: scan_def)

lemma scan_Cons: "scan s (c # cs) = scan (tokenizeStep s c) cs" by (simp add: scan_def)

lemma scan_append: "scan s (a @ b) = scan (scan s a) b" by (simp add: scan_def)

lemma scan_in_quotes:
  "inQuotes s \<Longrightarrow> quoteChar s \<notin> set p \<Longrightarrow>
   scan s p = s\<lparr>current := current s @ p,
               afterColon := (if p = [] then afterColon s else last p = CHR '':'')\<rparr>"
proof (induction p arbitrary: s)
  case Nil
  then show ?case by (simp add: scan_Nil)
next
  case (Cons c p)
  let ?s = "s\<lparr>current := current s @ [c], afterColon := (c = CHR '':'')\<rparr>"
  from Cons.prems have step: "tokenizeStep s c = ?s"
    by (auto simp add: tokenizeStep_def)
  from Cons.prems have "inQuotes ?s" "quoteChar ?s \<notin> set p" by simp_all
  from Cons.IH [OF this] step show ?case
    by (simp add: scan_Cons)
qed

lemma scan_plain:
  "\<not> inQuotes s \<Longrightarrow> set w \<inter> {DQ, SQ, CHR '' ''} = {} \<Longrightarrow>
   scan s w = s\<lparr>current := current s @ w,
               afterColon := (if w = [] then afterColon s else last w = CHR '':'')\<rparr>"
proof (induction w arbitrary: s)
  case Nil
  then show ?case by (simp add: scan_Nil)
next
  case (Cons c w)
  let ?s = "s\<lparr>current := current s @ [c], afterColon := (c = CHR '':'')\<rparr>"
  from Cons.prems have step: "tokenizeStep s c = ?s"
    by (auto simp add: tokenizeStep_def)
  from Cons.prems have "\<not> inQuotes ?s" "set w \<inter> {DQ, SQ, CHR '' ''} = {}" by simp_all
  from Cons.IH [OF this] step show ?case
    by (simp add: scan_Cons)
qed

lemma tokens_step: "\<exists>ext. tokens (tokenizeStep s c) = tokens s @ ext"
  by (simp add: tokenizeStep_def Let_def)

lemma tokens_scan: "\<exists>ext. tokens (scan s cs) = tokens s @ ext"
proof (induction cs arbitrary: s)
  case Nil
  show ?case by (simp add: scan_Nil)
next
  case (Cons c cs)
  obtain e1 where e1: "tokens (tokenizeStep s c) = tokens s @ e1"
    using tokens_step by blast
  obtain e2 where "tokens (scan (tokenizeStep s c) cs) = tokens (tokenizeStep s c) @ e2"
    using Cons.IH by blast
  with e1 show ?case by (simp add: scan_Cons)
qed

lemma finish_scan: "\<exists>rest. finish (scan s cs) = tokens s @ rest"
proof -
  obtain ext where "tokens (scan s cs) = tokens s @ ext"
    using tokens_scan by blast
  then show ?thesis by (simp add: finish_def)
qed

lemma scan_quoted_phrase:
  assumes "\<not> inQuotes s" "\<not> afterColon s" "p \<noteq> []" "qc = DQ \<or> qc = SQ" "qc \<notin> set p"
  shows "tokens (scan s ([qc] @ p @ [qc])) = finish s @ [[DQ] @ p @ [DQ]] \<and>
         current (scan s ([qc] @ p @ [qc])) = [] \<and> \<not> inQuotes (scan s ([qc] @ p @ [qc]))"
proof -
  define s1 where "s1 = s\<lparr>inQuotes := True, quoteChar := qc, opQuoted := False,
       tokens := finish s, current := [], afterColon := False\<rparr>"
  define s2 where "s2 = s1\<lparr>current := p, afterColon := (last p = CHR '':'')\<rparr>"
  have e1: "tokenizeStep s qc = s1"
    using assms by (auto simp add: s1_def tokenizeStep_def finish_def)
  have "inQuotes s1" "quoteChar s1 \<notin> set p" using assms by (simp_all add: s1_def)
  from scan_in_quotes [OF this] assms(3) have e2: "scan s1 p = s2"
    by (simp add: s2_def s1_def)
  have e3: "scan s ([qc] @ p @ [qc]) = tokenizeStep s2 qc"
    by (simp add: scan_Cons scan_append scan_Nil e1 e2)
  have "tokens (tokenizeStep s2 qc) = finish s @ [[DQ] @ p @ [DQ]]"
    "current (tokenizeStep s2 qc) = []" "\<not> inQuotes (tokenizeStep s2 qc)"
    using assms by (simp_all add: s2_def s1_def tokenizeStep_def)
  with e3 show ?thesis by simp
qed

lemma scan_op_quoted:
  assumes "\<not> inQuotes s" "current s = []" "set op \<inter> {DQ, SQ, CHR '' ''} = {}" "DQ \<notin> set v"
  shows "tokens (scan s (op @ '':'' @ [DQ] @ v @ [DQ])) = finish s @ [op @ '':'' @ [DQ] @ v @ [DQ]] \<and>
         current (scan s (op @ '':'' @ [DQ] @ v @ [DQ])) = [] \<and>
         \<not> inQuotes (scan s (op @ '':'' @ [DQ] @ v @ [DQ]))"
proof -
  define s1 where "s1 = s\<lparr>current := op @ '':'', afterColon := True\<rparr>"
  define s2 where "s2 = s\<lparr>current := op @ '':'' @ [DQ], afterColon := False, inQuotes := True,
      quoteChar := DQ, opQuoted := True\<rparr>"
  define s3 where "s3 = s2\<lparr>current := op @ '':'' @ [DQ] @ v,
       afterColon := (if v = [] then False else last v = CHR '':'')\<rparr>"
  have w: "set (op @ '':'') \<inter> {DQ, SQ, CHR '' ''} = {}" using assms(3) by auto
  have e1: "scan s (op @ '':'') = s1"
    using scan_plain [OF assms(1) w] assms(2) by (simp add: s1_def)
  have e2: "tokenizeStep s1 DQ = s2"
    using assms(1) by (simp add: s1_def s2_def tokenizeStep_def)
  have "inQuotes s2" "quoteChar s2 \<notin> set v" using assms by (simp_all add: s2_def)
  from scan_in_quotes [OF this] have e3: "scan s2 v = s3"
    by (simp add: s3_def s2_def)
  have "scan s ((op @ '':'') @ [DQ] @ v @ [DQ]) = tokenizeStep s3 DQ"
    unfolding scan_append [of s "op @ '':''"] e1
    by (simp add: scan_Cons scan_append scan_Nil e2 e3)
  then have e4: "scan s (op @ '':'' @ [DQ] @ v @ [DQ]) = tokenizeStep s3 DQ" by simp
  have "tokens (tokenizeStep s3 DQ) = finish s @ [op @ '':'' @ [DQ] @ v @ [DQ]]"
    "current (tokenizeStep s3 DQ) = []" "\<not> inQuotes (tokenizeStep s3 DQ)"
    using assms by (simp_all add: s3_def s2_def tokenizeStep_def finish_def)
  with e4 show ?thesis by simp
qed

lemma tokenize_after:
  assumes "tokens (scan (scan initTokenizer q1) x) = tokenize q1 @ [t]"
  shows "\<exists>rest. tokenize (q1 @ x @ q2) = tokenize q1 @ [t] @ rest"
proof -
  obtain rest where "finish (scan (scan (scan initTokenizer q1) x) q2)
      = tokens (scan (scan initTokenizer q1) x) @ rest"
    using finish_scan by blast
  with assms show ?thesis by (simp add: tokenize_def scan_append)
qed

subsection \<open>Tokens\<close>

lemma parseTokens_append:
  "parseTokens h q (ts @ us) =
     (case parseTokens h q ts of Inl e \<Rightarrow> Inl e | Inr q' \<Rightarrow> parseTokens h q' us)"
  by (induction ts arbitrary: q) (simp_all split: sum.splits)

lemma parseToken_quoted:
  assumes "p \<noteq> []"
  shows "parseToken h q ([DQ] @ p @ [DQ]) = Inr (q\<lparr>TextTerms := TextTerms q @ [p]\<rparr>)"
  using assms by (simp add: parseToken_def HasPrefix_def HasSuffix_def slice_def)

lemma Index_append_colon:
  "CHR '':'' \<notin> set op \<Longrightarrow> Index (op @ CHR '':'' # r) (CHR '':'') = Some (length op)"
  by (induction op) auto

lemma parseToken_op_quoted:
  assumes "set op \<inter> {DQ, CHR '':''} = {}"
  shows "parseToken h q (op @ '':'' @ [DQ] @ v @ [DQ]) =
         Inr (applyOp h q (ToLower op) v (op @ '':'' @ [DQ] @ v @ [DQ]))"
proof -
  have nodq: "\<not> (HasPrefix (op @ '':'' @ [DQ] @ v @ [DQ]) [DQ] \<and>
      HasSuffix (op @ '':'' @ [DQ] @ v @ [DQ]) [DQ] \<and> length (op @ '':'' @ [DQ] @ v @ [DQ]) > 2)"
    using assms by (cases op) (auto simp add: HasPrefix_def)
  have idx: "Index (op @ '':'' @ [DQ] @ v @ [DQ]) (CHR '':'') = Some (length op)"
    using assms Index_append_colon [of op "[DQ] @ v @ [DQ]"] by simp
  have val: "stripQuotes ([DQ] @ v @ [DQ]) = Inr v"
    by (simp add: stripQuotes_def HasPrefix_def HasSuffix_def slice_def)
  have dr: "drop (length op + 1) (op @ '':'' @ [DQ] @ v @ [DQ]) = [DQ] @ v @ [DQ]"
    "take (length op) (op @ '':'' @ [DQ] @ v @ [DQ]) = op" by simp_all
  show ?thesis
    unfolding parseToken_def if_not_P [OF nodq] idx option.case Let_def dr val
    by simp
qed

lemma applyOp_default:
  "op \<notin> set knownOps \<Longrightarrow> applyOp h q op v token = q\<lparr>TextTerms := TextTerms q @ [token]\<rparr>"
  by (simp add: applyOp_def knownOps_def)

lemma stripQuotes_ok:
  assumes "v \<noteq> [DQ]"
  shows "\<exists>v'. stripQuotes v = Inr v'"
proof (cases "HasPrefix v [DQ] \<and> HasSuffix v [DQ]")
  case True
  then have "length v \<noteq> 0" by (auto simp add: HasSuffix_def)
  moreover have "length v \<noteq> 1"
  proof
    assume "length v = 1"
    then obtain c where "v = [c]" by (cases v) auto
    with True assms show False by (simp add: HasPrefix_def)
  qed
  ultimately have "2 \<le> length v" by arith
  then show ?thesis using True by (simp add: stripQuotes_def slice_def)
next
  case False
  then have "stripQuotes v = Inr v" unfolding stripQuotes_def by (rule if_not_P)
  then show ?thesis by blast
qed

text \<open>
  A token with a colon that is not a quoted phrase and whose operator has no case in the
  \<^verbatim>\<open>switch\<close> goes whole to the text terms, unless its value is a lone double quote.
\<close>

lemma parseToken_unknown_op:
  assumes "\<not> (HasPrefix token [DQ] \<and> HasSuffix token [DQ] \<and> length token > 2)"
    and "Index token (CHR '':'') = Some idx"
    and "ToLower (take idx token) \<notin> set knownOps"
    and "drop (idx + 1) token \<noteq> [DQ]"
  shows "parseToken h q token = Inr (q\<lparr>TextTerms := TextTerms q @ [token]\<rparr>)"
proof -
  obtain v' where v': "stripQuotes (drop (idx + 1) token) = Inr v'"
    using stripQuotes_ok [OF assms(4)] by blast
  have "parseToken h q token = Inr (applyOp h q (ToLower (take idx token)) v' token)"
    unfolding parseToken_def if_not_P [OF assms(1)] assms(2) option.case Let_def v'
    by simp
  then show ?thesis using applyOp_default [OF assms(3)] by simp
qed

lemma applyOp_AccountID: "AccountID (applyOp h q op v token) = AccountID q"
  by (simp add: applyOp_def split: option.splits)

lemma parseToken_AccountID: "parseToken h q token = Inr q' \<Longrightarrow> AccountID q' = AccountID q"
proof -
  assume a: "parseToken h q token = Inr q'"
  show ?thesis
  proof (cases "HasPrefix token [DQ] \<and> HasSuffix token [DQ] \<and> length token > 2")
    case True
    from a have "(case slice token 1 (int (length token) - 1) of
           Inl p \<Rightarrow> Inl p
         | Inr t \<Rightarrow> Inr (q\<lparr>TextTerms := TextTerms q @ [t]\<rparr>)) = Inr q'"
      unfolding parseToken_def if_P [OF True] by simp
    then show ?thesis by (auto split: sum.splits)
  next
    case False
    show ?thesis
    proof (cases "Index token (CHR '':'')")
      case None
      from a have "Inr (q\<lparr>TextTerms := TextTerms q @ [token]\<rparr>) = Inr q'"
        unfolding parseToken_def if_not_P [OF False] None option.case by simp
      then show ?thesis by auto
    next
      case (Some idx)
      from a have "(case stripQuotes (drop (idx + 1) token) of Inl p \<Rightarrow> Inl p
          | Inr v' \<Rightarrow> Inr (applyOp h q (ToLower (take idx token)) v' token)) = Inr q'"
        unfolding parseToken_def if_not_P [OF False] Some option.case Let_def by simp
      then obtain v' where "q' = applyOp h q (ToLower (take idx token)) v' token"
        by (auto split: sum.splits)
      then show ?thesis by (simp add: applyOp_AccountID)
    qed
  qed
qed

lemma parseTokens_AccountID: "parseTokens h q ts = Inr q' \<Longrightarrow> AccountID q' = AccountID q"
proof (induction ts arbitrary: q)
  case Nil
  then show ?case by simp
next
  case (Cons t ts)
  then show ?case by (auto split: sum.splits dest: parseToken_AccountID)
qed

lemma toLowerRune_fix: "toLowerRune DQ = DQ" "toLowerRune (CHR '':'') = CHR '':''"
  by (simp_all add: toLowerRune_def)

lemma ToLower_in:
  assumes "ToLower op = ''in''"
  shows "\<exists>a b. op = [a, b] \<and> a \<noteq> DQ \<and> a \<noteq> CHR '':'' \<and> b \<noteq> CHR '':''"
proof -
  from assms have "length op = 2" 
    using length_map [of toLowerRune op] by (simp add: ToLower_def)
  then obtain a b where ab: "op = [a, b]"
    by (cases op; cases "tl op") auto
  with assms have l: "toLowerRune a = CHR ''i''" "toLowerRune b = CHR ''n''"
    by (simp_all add: ToLower_def)
  have "a \<noteq> DQ" using l(1) toLowerRune_fix(1) by auto
  moreover have "a \<noteq> CHR '':''" using l(1) toLowerRune_fix(2) by auto
  moreover have "b \<noteq> CHR '':''" using l(2) toLowerRune_fix(2) by auto
  ultimately show ?thesis using ab by blast
qed

lemma parseToken_in:
  assumes "ToLower op = ''in''" "acct \<noteq> [DQ]"
  shows "parseToken h q (op @ '':'' @ acct) = Inr (q\<lparr>TextTerms := TextTerms q @ [op @ '':'' @ acct]\<rparr>)"
proof -
  from ToLower_in [OF assms(1)]
  obtain a b where ab: "op = [a, b]" "a \<noteq> DQ" "a \<noteq> CHR '':''" "b \<noteq> CHR '':''"
    by (elim exE conjE)
  have 1: "\<not> (HasPrefix (op @ '':'' @ acct) [DQ] \<and> HasSuffix (op @ '':'' @ acct) [DQ] \<and> length (op @ '':'' @ acct) > 2)"
    using ab(2) by (simp add: HasPrefix_def ab(1))
  have 2: "Index (op @ '':'' @ acct) (CHR '':'') = Some 2" using ab(3,4) by (simp add: ab(1))
  have t: "take 2 (op @ '':'' @ acct) = op" "drop (2 + 1) (op @ '':'' @ acct) = acct"
    by (simp_all add: ab(1))
  have 3: "ToLower (take 2 (op @ '':'' @ acct)) \<notin> set knownOps"
    unfolding t assms(1) by (simp add: knownOps_def)
  have 4: "drop (2 + 1) (op @ '':'' @ acct) \<noteq> [DQ]" unfolding t by (rule assms(2))
  show ?thesis
    by (rule parseToken_unknown_op [OF 1 2 3 4])
qed

lemma Parse_after:
  assumes "tokenize (q1 @ x @ q2) = tokenize q1 @ [t] @ rest"
    and "\<And>q. parseToken h q t = Inr (f q)"
  shows "Parse h (q1 @ x @ q2) =
     (case Parse h q1 of Inl e \<Rightarrow> Inl e | Inr q \<Rightarrow> parseTokens h (f q) rest)"
  unfolding Parse_def assms(1) parseTokens_append
  by (simp add: assms(2) split: sum.splits)

subsection \<open>Claims about \<^verbatim>\<open>Parse\<close>\<close>

text \<open>
  Claim C1, as the code has it. \<^verbatim>\<open>Parse\<close> has no case for the operator \<open>in\<close>: no query makes
  it set \<^verbatim>\<open>Query.AccountID\<close>, which is nil in every query that \<^verbatim>\<open>Parse\<close> returns, and a token
  \<open>in:<account>\<close> (the operator in any letter case, the account anything but a lone double
  quote) takes the default branch: the whole token is appended to the text terms.
\<close>

theorem Parse_in_token_is_text_term:
  "(\<forall>s q. Parse h s = Inr q \<longrightarrow> AccountID q = None) \<and>
   (\<forall>op acct q. ToLower op = ''in'' \<and> acct \<noteq> [DQ] \<longrightarrow>
      parseToken h q (op @ '':'' @ acct) = Inr (q\<lparr>TextTerms := TextTerms q @ [op @ '':'' @ acct]\<rparr>))"
proof (intro conjI allI impI)
  fix s q assume "Parse h s = Inr q"
  then have "AccountID q = AccountID emptyQuery"
    unfolding Parse_def by (rule parseTokens_AccountID)
  then show "AccountID q = None" by (simp add: emptyQuery_def)
next
  fix op acct q assume a: "ToLower op = ''in'' \<and> acct \<noteq> [DQ]"
  then show "parseToken h q (op @ '':'' @ acct) = Inr (q\<lparr>TextTerms := TextTerms q @ [op @ '':'' @ acct]\<rparr>)"
    using parseToken_in by blast
qed

text \<open>
  The theorem at the token \<open>IN:work\<close>.
\<close>

theorem Parse_in_token_is_text_term_witness:
  "ToLower ''IN'' = ''in'' \<and> ''work'' \<noteq> [DQ] \<and>
   parseToken rejectAll emptyQuery ''IN:work'' = Inr (emptyQuery\<lparr>TextTerms := [''IN:work'']\<rparr>)"
proof -
  have a: "ToLower ''IN'' = ''in'' \<and> ''work'' \<noteq> [DQ]" by (simp add: ToLower_def toLowerRune_def)
  have "\<forall>op acct q. ToLower op = ''in'' \<and> acct \<noteq> [DQ] \<longrightarrow>
      parseToken rejectAll q (op @ '':'' @ acct) = Inr (q\<lparr>TextTerms := TextTerms q @ [op @ '':'' @ acct]\<rparr>)"
    using Parse_in_token_is_text_term [of rejectAll] by (rule conjunct2)
  from this [rule_format, OF a, of emptyQuery] a show ?thesis by (simp add: emptyQuery_def)
qed

text \<open>
  Claim C1 as stated fails on the query \<open>in:work\<close>: the token is a plain text term and no
  account filter is recorded.
\<close>

theorem Parse_in_token_counterexample:
  "Parse rejectAll ''in:work'' = Inr (emptyQuery\<lparr>TextTerms := [''in:work'']\<rparr>) \<and>
   AccountID (emptyQuery\<lparr>TextTerms := [''in:work'']\<rparr>) = None"
  by (simp add: Parse_def tokenize_def scan_def tokenizeStep_def initTokenizer_def finish_def
      parseToken_def stripQuotes_def HasPrefix_def HasSuffix_def applyOp_def ToLower_def toLowerRune_def
      emptyQuery_def)

text \<open>
  What the code does with a quoted part while the flag \<open>afterColon\<close> of the tokenizer is
  clear. Let a query continue, after a part \<open>q1\<close> that leaves the tokenizer outside quotes,
  with a quoted phrase and then anything (\<open>q2\<close>). If \<open>afterColon\<close> is clear after \<open>q1\<close>, and the
  phrase is not empty and is closed by the quote character that opened it, then it is one
  token, and \<^verbatim>\<open>Parse\<close> turns this token into the single text term \<open>p\<close>, without the quotes,
  whatever colons and spaces \<open>p\<close> holds. If instead the part is \<open>op:"v"\<close> at the start of a
  token, then \<open>op:"v"\<close> is one token and \<^verbatim>\<open>Parse\<close> handles it as operator \<open>op\<close> (in lower case)
  with the value \<open>v\<close>, without the quotes, whatever colons and spaces \<open>v\<close> holds. In both
  cases the tokens before and after are parsed as they are without the phrase. The flag
  is set by a colon and cleared by a space, by an opening quote and by any other
  character, but not by a closing quote: it is still set right after a quoted phrase
  that ends in a colon, and this lemma says nothing about a phrase that starts there.
\<close>

lemma quoted_phrase_and_quoted_value:
  "(\<not> inQuotes (scan initTokenizer q1) \<and> \<not> afterColon (scan initTokenizer q1) \<and>
    (qc = DQ \<or> qc = SQ) \<and> p \<noteq> [] \<and> qc \<notin> set p \<longrightarrow>
      (\<exists>rest. tokenize (q1 @ ([qc] @ p @ [qc]) @ q2) = tokenize q1 @ [[DQ] @ p @ [DQ]] @ rest \<and>
         (\<forall>h. Parse h (q1 @ ([qc] @ p @ [qc]) @ q2) =
            (case Parse h q1 of
               Inl e \<Rightarrow> Inl e
             | Inr q \<Rightarrow> parseTokens h (q\<lparr>TextTerms := TextTerms q @ [p]\<rparr>) rest)))) \<and>
   (\<not> inQuotes (scan initTokenizer q1) \<and> current (scan initTokenizer q1) = [] \<and>
    set op \<inter> {DQ, SQ, CHR '' '', CHR '':''} = {} \<and> DQ \<notin> set v \<longrightarrow>
      (\<exists>rest. tokenize (q1 @ (op @ '':'' @ [DQ] @ v @ [DQ]) @ q2) =
                 tokenize q1 @ [op @ '':'' @ [DQ] @ v @ [DQ]] @ rest \<and>
         (\<forall>h. Parse h (q1 @ (op @ '':'' @ [DQ] @ v @ [DQ]) @ q2) =
            (case Parse h q1 of
               Inl e \<Rightarrow> Inl e
             | Inr q \<Rightarrow> parseTokens h
                 (applyOp h q (ToLower op) v (op @ '':'' @ [DQ] @ v @ [DQ])) rest))))"
proof (intro conjI impI)
  assume a: "\<not> inQuotes (scan initTokenizer q1) \<and> \<not> afterColon (scan initTokenizer q1) \<and>
    (qc = DQ \<or> qc = SQ) \<and> p \<noteq> [] \<and> qc \<notin> set p"
  then have "tokens (scan (scan initTokenizer q1) ([qc] @ p @ [qc])) =
      finish (scan initTokenizer q1) @ [[DQ] @ p @ [DQ]]"
    using scan_quoted_phrase [of "scan initTokenizer q1" p qc] by blast
  then have "tokens (scan (scan initTokenizer q1) ([qc] @ p @ [qc])) = tokenize q1 @ [[DQ] @ p @ [DQ]]"
    by (simp add: tokenize_def)
  from tokenize_after [OF this] obtain rest where
    r: "tokenize (q1 @ ([qc] @ p @ [qc]) @ q2) = tokenize q1 @ [[DQ] @ p @ [DQ]] @ rest"
    by blast
  have pt: "\<And>h q. parseToken h q ([DQ] @ p @ [DQ]) = Inr (q\<lparr>TextTerms := TextTerms q @ [p]\<rparr>)"
    using a parseToken_quoted by blast
  have "\<forall>h. Parse h (q1 @ ([qc] @ p @ [qc]) @ q2) =
            (case Parse h q1 of
               Inl e \<Rightarrow> Inl e
             | Inr q \<Rightarrow> parseTokens h (q\<lparr>TextTerms := TextTerms q @ [p]\<rparr>) rest)"
    using Parse_after [OF r pt] by blast
  with r show "\<exists>rest. tokenize (q1 @ ([qc] @ p @ [qc]) @ q2) = tokenize q1 @ [[DQ] @ p @ [DQ]] @ rest \<and>
         (\<forall>h. Parse h (q1 @ ([qc] @ p @ [qc]) @ q2) =
            (case Parse h q1 of
               Inl e \<Rightarrow> Inl e
             | Inr q \<Rightarrow> parseTokens h (q\<lparr>TextTerms := TextTerms q @ [p]\<rparr>) rest))"
    by blast
next
  let ?t = "op @ '':'' @ [DQ] @ v @ [DQ]"
  assume a: "\<not> inQuotes (scan initTokenizer q1) \<and> current (scan initTokenizer q1) = [] \<and>
    set op \<inter> {DQ, SQ, CHR '' '', CHR '':''} = {} \<and> DQ \<notin> set v"
  then have o1: "set op \<inter> {DQ, SQ, CHR '' ''} = {}" and o2: "set op \<inter> {DQ, CHR '':''} = {}"
    by auto
  from a o1 have "tokens (scan (scan initTokenizer q1) ?t) = finish (scan initTokenizer q1) @ [?t]"
    using scan_op_quoted [of "scan initTokenizer q1" op v] by blast
  then have "tokens (scan (scan initTokenizer q1) ?t) = tokenize q1 @ [?t]"
    by (simp add: tokenize_def)
  from tokenize_after [OF this] obtain rest where
    r: "tokenize (q1 @ ?t @ q2) = tokenize q1 @ [?t] @ rest"
    by blast
  have pt: "\<And>h q. parseToken h q ?t = Inr (applyOp h q (ToLower op) v ?t)"
    using parseToken_op_quoted [OF o2] by blast
  have "\<forall>h. Parse h (q1 @ ?t @ q2) =
            (case Parse h q1 of
               Inl e \<Rightarrow> Inl e
             | Inr q \<Rightarrow> parseTokens h (applyOp h q (ToLower op) v ?t) rest)"
    using Parse_after [OF r pt] by blast
  with r show "\<exists>rest. tokenize (q1 @ ?t @ q2) = tokenize q1 @ [?t] @ rest \<and>
         (\<forall>h. Parse h (q1 @ ?t @ q2) =
            (case Parse h q1 of
               Inl e \<Rightarrow> Inl e
             | Inr q \<Rightarrow> parseTokens h (applyOp h q (ToLower op) v ?t) rest))"
    by blast
qed

text \<open>
  The lemma in the query \<open>from:bob "re: x" y\<close> and in the query
  \<open>from:bob subject:"a: b" y\<close>.
\<close>

lemma quoted_phrase_and_quoted_value_example:
  "(\<not> inQuotes (scan initTokenizer ''from:bob '') \<and> \<not> afterColon (scan initTokenizer ''from:bob '') \<and>
    (DQ = DQ \<or> DQ = SQ) \<and> ''re: x'' \<noteq> [] \<and> DQ \<notin> set ''re: x'') \<and>
   (\<exists>rest. tokenize (''from:bob '' @ ([DQ] @ ''re: x'' @ [DQ]) @ '' y'') =
        tokenize ''from:bob '' @ [[DQ] @ ''re: x'' @ [DQ]] @ rest \<and>
      (\<forall>h. Parse h (''from:bob '' @ ([DQ] @ ''re: x'' @ [DQ]) @ '' y'') =
            (case Parse h ''from:bob '' of
               Inl e \<Rightarrow> Inl e
             | Inr q \<Rightarrow> parseTokens h (q\<lparr>TextTerms := TextTerms q @ [''re: x'']\<rparr>) rest))) \<and>
   (\<not> inQuotes (scan initTokenizer ''from:bob '') \<and> current (scan initTokenizer ''from:bob '') = [] \<and>
    set ''subject'' \<inter> {DQ, SQ, CHR '' '', CHR '':''} = {} \<and> DQ \<notin> set ''a: b'') \<and>
   (\<exists>rest. tokenize (''from:bob '' @ (''subject'' @ '':'' @ [DQ] @ ''a: b'' @ [DQ]) @ '' y'') =
        tokenize ''from:bob '' @ [''subject'' @ '':'' @ [DQ] @ ''a: b'' @ [DQ]] @ rest \<and>
      (\<forall>h. Parse h (''from:bob '' @ (''subject'' @ '':'' @ [DQ] @ ''a: b'' @ [DQ]) @ '' y'') =
            (case Parse h ''from:bob '' of
               Inl e \<Rightarrow> Inl e
             | Inr q \<Rightarrow> parseTokens h
                 (applyOp h q (ToLower ''subject'') ''a: b''
                    (''subject'' @ '':'' @ [DQ] @ ''a: b'' @ [DQ])) rest)))"
proof -
  have h1: "\<not> inQuotes (scan initTokenizer ''from:bob '') \<and> \<not> afterColon (scan initTokenizer ''from:bob '') \<and>
    (DQ = DQ \<or> DQ = SQ) \<and> ''re: x'' \<noteq> [] \<and> DQ \<notin> set ''re: x''"
    by (simp add: scan_def tokenizeStep_def initTokenizer_def)
  have h2: "\<not> inQuotes (scan initTokenizer ''from:bob '') \<and> current (scan initTokenizer ''from:bob '') = [] \<and>
    set ''subject'' \<inter> {DQ, SQ, CHR '' '', CHR '':''} = {} \<and> DQ \<notin> set ''a: b''"
    by (simp add: scan_def tokenizeStep_def initTokenizer_def)
  note t = quoted_phrase_and_quoted_value [of "''from:bob ''" DQ "''re: x''" "'' y''" "''subject''" "''a: b''"]
  note c1 = t [THEN conjunct1, THEN mp, OF h1]
  note c2 = t [THEN conjunct2, THEN mp, OF h2]
  show ?thesis
    by (rule conjI [OF h1 conjI [OF c1 conjI [OF h2 c2]]])
qed

text \<open>
  Claim C6 at the query \<open>"re:"'b c'\<close>: a quoted phrase that ends in a colon, directly
  followed by the standalone quoted phrase \<open>'b c'\<close>. The closing quote of the first phrase
  leaves \<open>afterColon\<close> set, so the tokenizer takes the second phrase for the quoted value of
  an operator and keeps its quotes. \<^verbatim>\<open>Parse\<close> then makes the text term \<open>'b c'\<close>, quotes included,
  where the claim says that the surrounding quotes are stripped; the same phrase alone
  gives the text term \<open>b c\<close>.
\<close>

theorem quoted_phrase_after_colon_phrase_keeps_quotes:
  "Parse h ([DQ] @ ''re:'' @ [DQ] @ [SQ] @ ''b c'' @ [SQ]) =
     Inr (emptyQuery\<lparr>TextTerms := [''re:'', [SQ] @ ''b c'' @ [SQ]]\<rparr>) \<and>
   Parse h ([SQ] @ ''b c'' @ [SQ]) = Inr (emptyQuery\<lparr>TextTerms := [''b c'']\<rparr>) \<and>
   afterColon (scan initTokenizer ([DQ] @ ''re:'' @ [DQ]))"
  by (simp add: Parse_def tokenize_def scan_def tokenizeStep_def initTokenizer_def finish_def
      parseToken_def stripQuotes_def HasPrefix_def HasSuffix_def slice_def applyOp_def
      ToLower_def toLowerRune_def emptyQuery_def)

text \<open>
  Claim C10 at the query \<open>foo:"\<close>. The operator \<open>foo\<close> is unknown and the value is a lone
  double quote: stripping the quotes evaluates \<^verbatim>\<open>value[1:0]\<close>, and \<^verbatim>\<open>Parse\<close> panics instead of
  appending the token to the text terms.
\<close>

theorem Parse_unknown_op_lone_quote_panics:
  "Parse h (''foo:'' @ [DQ]) = Inl SliceBoundsOutOfRange"
  by (simp add: Parse_def tokenize_def scan_def tokenizeStep_def initTokenizer_def finish_def
      parseToken_def stripQuotes_def HasPrefix_def HasSuffix_def slice_def)

section \<open>Properties of the incremental sync\<close>

lemmas call_defs = callGetSourceByIdentifier_def callStartSync_def callFailSync_def
  callCompleteSync_def callUpdateSourceSyncCursor_def callGetProfile_def callSyncLabels_def

lemma ParseUint_nonempty: "ParseUint s = Some n \<Longrightarrow> s \<noteq> []"
  by (auto simp add: ParseUint_def)

text \<open>
  Claim C7. When the source of the account has a null or empty \<^verbatim>\<open>sync_cursor\<close>,
  \<^verbatim>\<open>Incremental\<close> returns the error ``no history ID for <email> - run full sync first'',
  whatever the fuel, and the lookup of the source is the only call it makes: no sync run
  is started, the remote service is not contacted and the store is not written.
\<close>

theorem Incremental_without_cursor:
  assumes "GetSourceByIdentifier E tr email = Inr (Some source)"
    and "\<not> NullString_Valid (Source_SyncCursor source)
         \<or> NullString_String (Source_SyncCursor source) = []"
  shows "Incremental fuel E email tr =
           Some (Inl (NoHistoryID email),
                 tr @ [EvGetSourceByIdentifier email (Inr (Some source))])"
  using assms by (simp add: Incremental_def callGetSourceByIdentifier_def Let_def)

text \<open>
  The theorem in the environment of \<^verbatim>\<open>TestIncrementalSyncNoHistoryID\<close>.
\<close>

theorem Incremental_without_cursor_witness:
  "GetSourceByIdentifier noCursorEnv [] ''test@example.com'' =
     Inr (Some \<lparr>Source_ID = 1,
        Source_SyncCursor = \<lparr>NullString_String = [], NullString_Valid = False\<rparr>\<rparr>) \<and>
   Incremental 5 noCursorEnv ''test@example.com'' [] =
     Some (Inl (NoHistoryID ''test@example.com''),
           [] @ [EvGetSourceByIdentifier ''test@example.com''
              (Inr (Some \<lparr>Source_ID = 1,
                 Source_SyncCursor = \<lparr>NullString_String = [], NullString_Valid = False\<rparr>\<rparr>))])"
proof -
  have h1: "GetSourceByIdentifier noCursorEnv [] ''test@example.com'' =
     Inr (Some \<lparr>Source_ID = 1,
        Source_SyncCursor = \<lparr>NullString_String = [], NullString_Valid = False\<rparr>\<rparr>)"
    by (simp add: noCursorEnv_def mockEnv_def)
  have h2: "\<not> NullString_Valid (Source_SyncCursor \<lparr>Source_ID = 1,
        Source_SyncCursor = \<lparr>NullString_String = [], NullString_Valid = False\<rparr>\<rparr>)
      \<or> NullString_String (Source_SyncCursor \<lparr>Source_ID = 1,
        Source_SyncCursor = \<lparr>NullString_String = [], NullString_Valid = False\<rparr>\<rparr>) = []"
    by simp
  from Incremental_without_cursor [OF h1 h2, of 5] h1 show ?thesis by (intro conjI)
qed

text \<open>
  Claim C8. When the stored cursor is the history id \<open>h\<close> that the profile reports,
  \<^verbatim>\<open>Incremental\<close> returns a summary, whatever the fuel, after exactly four calls: the lookup
  of the source, \<^verbatim>\<open>StartSync\<close>, \<^verbatim>\<open>GetProfile\<close>, and \<^verbatim>\<open>CompleteSync\<close> on the run with \<open>h\<close> in
  decimal as final cursor. So no history is listed and no message is fetched, ingested or
  modified. The summary reports zero messages added and \<open>h\<close> as final history id.
\<close>

theorem Incremental_already_up_to_date:
  assumes "GetSourceByIdentifier E tr email = Inr (Some source)"
    and "NullString_Valid (Source_SyncCursor source)"
    and "ParseUint (NullString_String (Source_SyncCursor source)) = Some h"
    and "StartSync E (tr @ [EvGetSourceByIdentifier email (Inr (Some source))])
           (Source_ID source) ''incremental'' = Inr syncID"
    and "GetProfile E (tr @ [EvGetSourceByIdentifier email (Inr (Some source)),
           EvStartSync (Source_ID source) ''incremental'' (Inr syncID)]) = Inr profile"
    and "Profile_HistoryID profile = h"
  shows "\<exists>sm r. Incremental fuel E email tr =
           Some (Inr sm,
                 tr @ [EvGetSourceByIdentifier email (Inr (Some source)),
                       EvStartSync (Source_ID source) ''incremental'' (Inr syncID),
                       EvGetProfile (Inr profile),
                       EvCompleteSync syncID (FormatUint h) r])
         \<and> SyncSummary_MessagesAdded sm = 0 \<and> SyncSummary_FinalHistoryID sm = h"
proof -
  have ne: "NullString_String (Source_SyncCursor source) \<noteq> []"
    using assms(3) by (rule ParseUint_nonempty)
  show ?thesis
    using assms ne
    by (simp add: Incremental_def callGetSourceByIdentifier_def callStartSync_def
        callGetProfile_def callCompleteSync_def Let_def newSummary_def)
qed

text \<open>
  The theorem in the environment of \<^verbatim>\<open>TestIncrementalSyncAlreadyUpToDate\<close>.
\<close>

theorem Incremental_already_up_to_date_witness:
  "\<exists>sm r. Incremental 5 upToDateEnv ''test@example.com'' [] =
           Some (Inr sm,
                 [] @ [EvGetSourceByIdentifier ''test@example.com''
                         (Inr (Some \<lparr>Source_ID = 1, Source_SyncCursor =
                            \<lparr>NullString_String = ''12345'', NullString_Valid = True\<rparr>\<rparr>)),
                       EvStartSync 1 ''incremental'' (Inr 7),
                       EvGetProfile (Inr \<lparr>Profile_EmailAddress = ''test@example.com'',
                          Profile_MessagesTotal = 10, Profile_ThreadsTotal = 0,
                          Profile_HistoryID = 12345\<rparr>),
                       EvCompleteSync 7 (FormatUint 12345) r])
         \<and> SyncSummary_MessagesAdded sm = 0 \<and> SyncSummary_FinalHistoryID sm = 12345"
proof -
  let ?source = "\<lparr>Source_ID = 1, Source_SyncCursor =
                            \<lparr>NullString_String = ''12345'', NullString_Valid = True\<rparr>\<rparr>"
  let ?profile = "\<lparr>Profile_EmailAddress = ''test@example.com'',
                          Profile_MessagesTotal = 10, Profile_ThreadsTotal = 0,
                          Profile_HistoryID = 12345\<rparr>"
  have h1: "GetSourceByIdentifier upToDateEnv [] ''test@example.com'' = Inr (Some ?source)"
    by (simp add: upToDateEnv_def mockEnv_def)
  have h2: "NullString_Valid (Source_SyncCursor ?source)" by simp
  have h3: "ParseUint (NullString_String (Source_SyncCursor ?source)) = Some 12345"
    by (simp add: ParseUint_def digitVal_def)
  have h4: "StartSync upToDateEnv ([] @ [EvGetSourceByIdentifier ''test@example.com'' (Inr (Some ?source))])
           (Source_ID ?source) ''incremental'' = Inr 7"
    by (simp add: upToDateEnv_def mockEnv_def)
  have h5: "GetProfile upToDateEnv ([] @ [EvGetSourceByIdentifier ''test@example.com'' (Inr (Some ?source)),
           EvStartSync (Source_ID ?source) ''incremental'' (Inr 7)]) = Inr ?profile"
    by (simp add: upToDateEnv_def mockEnv_def)
  have h6: "Profile_HistoryID ?profile = 12345" by simp
  from Incremental_already_up_to_date [OF h1 h2 h3 h4 h5 h6, of 5]
  show ?thesis by simp
qed




subsection \<open>The history loop\<close>

lemma quiet_refl: "quietExtension tr tr"
  by (simp add: quietExtension_def)

lemma quiet_trans: "quietExtension a b \<Longrightarrow> quietExtension b c \<Longrightarrow> quietExtension a c"
  unfolding quietExtension_def by fastforce

lemma quiet_snoc: "\<not> historyNotFound ev \<Longrightarrow> quietExtension tr (tr @ [ev])"
  by (simp add: quietExtension_def)

lemma quiet_foldl:
  assumes "\<And>cp sm tr x. quietExtension tr (snd (snd (f (cp, sm, tr) x)))"
  shows "quietExtension (snd (snd st)) (snd (snd (foldl f st xs)))"
proof (induction xs arbitrary: st)
  case Nil
  show ?case by (simp add: quiet_refl)
next
  case (Cons x xs)
  obtain cp sm tr where st: "st = (cp, sm, tr)" by (cases st) auto
  have "quietExtension (snd (snd st)) (snd (snd (f st x)))"
    using assms [of tr cp sm x] by (simp add: st)
  moreover have "quietExtension (snd (snd (f st x))) (snd (snd (foldl f (f st x) xs)))"
    by (rule Cons.IH)
  ultimately show ?case using quiet_trans by simp
qed

lemma quiet_handleLabelChange:
  "quietExtension tr (snd (handleLabelChange E sourceID messageID threadID ids lm isAdd tr))"
  by (auto simp add: handleLabelChange_def callMessageExistsBatch_def callGetMessageRaw_def
      callIngestMessage_def callReplaceMessageLabels_def Let_def quietExtension_def
      split: sum.splits option.splits)

lemma quiet_processAdded:
  "quietExtension tr (snd (snd (processAdded E sourceID lm (cp, sm, tr) added)))"
  by (auto simp add: processAdded_def callGetMessageRaw_def callIngestMessage_def Let_def
      quietExtension_def split: sum.splits option.splits)

lemma quiet_processDeleted:
  "quietExtension tr (snd (snd (processDeleted E sourceID (cp, sm, tr) deleted)))"
  by (auto simp add: processDeleted_def callMarkMessageDeleted_def Let_def
      quietExtension_def split: sum.splits option.splits)

lemma quiet_processLabelChange:
  "quietExtension tr (snd (snd (processLabelChange E sourceID lm isAdd (cp, sm, tr) change)))"
  using quiet_handleLabelChange
    [of tr E sourceID "MessageID_ID (HistoryLabelChange_Message change)"
        "MessageID_ThreadID (HistoryLabelChange_Message change)"
        "HistoryLabelChange_LabelIDs change" lm isAdd]
  by (auto simp add: processLabelChange_def split: prod.splits)

lemma quiet_processRecord:
  "quietExtension tr (snd (snd (processRecord E sourceID lm (cp, sm, tr) record)))"
proof -
  define st1 where "st1 = foldl (processAdded E sourceID lm) (cp, sm, tr) (HistoryRecord_MessagesAdded record)"
  define st2 where "st2 = foldl (processDeleted E sourceID) st1 (HistoryRecord_MessagesDeleted record)"
  define st3 where "st3 = foldl (processLabelChange E sourceID lm True) st2 (HistoryRecord_LabelsAdded record)"
  define st4 where "st4 = foldl (processLabelChange E sourceID lm False) st3 (HistoryRecord_LabelsRemoved record)"
  have 1: "quietExtension tr (snd (snd st1))"
    unfolding st1_def
    using quiet_foldl [of "processAdded E sourceID lm" "(cp, sm, tr)"] quiet_processAdded by simp
  have 2: "quietExtension (snd (snd st1)) (snd (snd st2))"
    unfolding st2_def by (rule quiet_foldl) (rule quiet_processDeleted)
  have 3: "quietExtension (snd (snd st2)) (snd (snd st3))"
    unfolding st3_def by (rule quiet_foldl) (rule quiet_processLabelChange)
  have 4: "quietExtension (snd (snd st3)) (snd (snd st4))"
    unfolding st4_def by (rule quiet_foldl) (rule quiet_processLabelChange)
  have "snd (snd (processRecord E sourceID lm (cp, sm, tr) record)) = snd (snd st4)"
    by (simp add: processRecord_def Let_def st1_def st2_def st3_def st4_def split: prod.splits)
  with quiet_trans [OF quiet_trans [OF quiet_trans [OF 1 2] 3] 4] show ?thesis by simp
qed

lemma quiet_records:
  "quietExtension tr (snd (snd (foldl (processRecord E sourceID lm) (cp, sm, tr) records)))"
  using quiet_foldl [of "processRecord E sourceID lm" "(cp, sm, tr)" records] quiet_processRecord
  by simp

lemma historyLoop_error:
  assumes "ListHistory E tr start tok = Inl err"
  shows "historyLoop (Suc fuel) E sourceID syncID start lm tok (cp, sm, tr) =
     Some (Inl (if isNotFound err then ErrHistoryExpired else ListHistoryFailed err),
           tr @ [EvListHistory start tok (Inl err),
                 EvFailSync syncID
                   (if isNotFound err then Message ''history too old'' else ErrorOf err)
                   (FailSync E (tr @ [EvListHistory start tok (Inl err)]) syncID
                      (if isNotFound err then Message ''history too old'' else ErrorOf err))])"
  using assms by (simp add: callListHistory_def callFailSync_def Let_def)

lemma historyLoop_page:
  assumes lh: "ListHistory E tr start tok = Inr resp"
    and f: "foldl (processRecord E sourceID lm) (cp, sm, tr @ [EvListHistory start tok (Inr resp)])
              (HistoryResponse_History resp) = (cp1, sm1, tr2)"
  shows "\<exists>cp2 tr4. quietExtension tr tr4 \<and>
     historyLoop (Suc fuel) E sourceID syncID start lm tok (cp, sm, tr) =
       (if HistoryResponse_NextPageToken resp = [] then Some (Inr (cp2, sm1), tr4)
        else historyLoop fuel E sourceID syncID start lm (HistoryResponse_NextPageToken resp)
               (cp2, sm1, tr4))"
proof -
  let ?tr1 = "tr @ [EvListHistory start tok (Inr resp)]"
  let ?tr3 = "tr2 @ [EvOnProgress (Checkpoint_MessagesProcessed cp1) (Checkpoint_MessagesAdded cp1) 0]"
  let ?cp2 = "cp1\<lparr>Checkpoint_PageToken := HistoryResponse_NextPageToken resp\<rparr>"
  let ?tr4 = "?tr3 @ [EvUpdateSyncCheckpoint syncID ?cp2 (UpdateSyncCheckpoint E ?tr3 syncID ?cp2)]"
  have q1: "quietExtension tr ?tr1" by (rule quiet_snoc) simp
  have q2: "quietExtension ?tr1 tr2"
    using quiet_records [of ?tr1 E sourceID lm cp sm "HistoryResponse_History resp"] f by simp
  have q3: "quietExtension tr2 ?tr3" by (rule quiet_snoc) simp
  have q4: "quietExtension ?tr3 ?tr4" by (rule quiet_snoc) simp
  have q: "quietExtension tr ?tr4"
    by (rule quiet_trans [OF quiet_trans [OF quiet_trans [OF q1 q2] q3] q4])
  have "historyLoop (Suc fuel) E sourceID syncID start lm tok (cp, sm, tr) =
       (if HistoryResponse_NextPageToken resp = [] then Some (Inr (?cp2, sm1), ?tr4)
        else historyLoop fuel E sourceID syncID start lm (HistoryResponse_NextPageToken resp)
               (?cp2, sm1, ?tr4))"
    using lh f by (simp add: callListHistory_def callUpdateSyncCheckpoint_def Let_def)
  with q show ?thesis by blast
qed

lemma historyLoop_inv:
  "historyLoop fuel E sourceID syncID start lm tok (cp, sm, tr) = Some (res, tr') \<Longrightarrow>
   \<exists>new. tr' = tr @ new \<and>
     ((res = Inl ErrHistoryExpired) = (\<exists>ev \<in> set new. historyNotFound ev)) \<and>
     (res = Inl ErrHistoryExpired \<longrightarrow> expiredEnd syncID new)"
proof (induction fuel arbitrary: tok cp sm tr)
  case 0
  then show ?case by simp
next
  case (Suc fuel)
  show ?case
  proof (cases "ListHistory E tr start tok")
    case (Inl err)
    note e = historyLoop_error [OF Inl, of fuel sourceID syncID lm cp sm]
    show ?thesis
    proof (cases "isNotFound err")
      case True
      with e Suc.prems have r: "res = Inl ErrHistoryExpired"
        and t: "tr' = tr @ [EvListHistory start tok (Inl err),
                 EvFailSync syncID (Message ''history too old'')
                   (FailSync E (tr @ [EvListHistory start tok (Inl err)]) syncID
                      (Message ''history too old''))]"
        by simp_all
      have "expiredEnd syncID [EvListHistory start tok (Inl err),
                 EvFailSync syncID (Message ''history too old'')
                   (FailSync E (tr @ [EvListHistory start tok (Inl err)]) syncID
                      (Message ''history too old''))]"
        unfolding expiredEnd_def using True by (intro exI [of _ "[]"]) auto
      with r t True show ?thesis by auto
    next
      case False
      with e Suc.prems have r: "res = Inl (ListHistoryFailed err)"
        and t: "tr' = tr @ [EvListHistory start tok (Inl err),
                 EvFailSync syncID (ErrorOf err)
                   (FailSync E (tr @ [EvListHistory start tok (Inl err)]) syncID (ErrorOf err))]"
        by simp_all
      with False show ?thesis by auto
    qed
  next
    case (Inr resp)
    obtain cp1 sm1 tr2 where f:
      "foldl (processRecord E sourceID lm) (cp, sm, tr @ [EvListHistory start tok (Inr resp)])
              (HistoryResponse_History resp) = (cp1, sm1, tr2)"
      by (cases "foldl (processRecord E sourceID lm) (cp, sm, tr @ [EvListHistory start tok (Inr resp)])
              (HistoryResponse_History resp)") auto
    from historyLoop_page [OF Inr f, of fuel syncID] obtain cp2 tr4 where
      q: "quietExtension tr tr4" and
      h: "historyLoop (Suc fuel) E sourceID syncID start lm tok (cp, sm, tr) =
       (if HistoryResponse_NextPageToken resp = [] then Some (Inr (cp2, sm1), tr4)
        else historyLoop fuel E sourceID syncID start lm (HistoryResponse_NextPageToken resp)
               (cp2, sm1, tr4))"
      by blast
    from q obtain mid where mid: "tr4 = tr @ mid" "\<forall>ev \<in> set mid. \<not> historyNotFound ev"
      unfolding quietExtension_def by blast
    show ?thesis
    proof (cases "HistoryResponse_NextPageToken resp = []")
      case True
      with h Suc.prems have "res = Inr (cp2, sm1)" "tr' = tr4" by simp_all
      with mid show ?thesis by auto
    next
      case False
      with h Suc.prems have "historyLoop fuel E sourceID syncID start lm
          (HistoryResponse_NextPageToken resp) (cp2, sm1, tr4) = Some (res, tr')" by simp
      from Suc.IH [OF this] obtain new where
        n: "tr' = tr4 @ new"
          "(res = Inl ErrHistoryExpired) = (\<exists>ev \<in> set new. historyNotFound ev)"
          "res = Inl ErrHistoryExpired \<longrightarrow> expiredEnd syncID new"
        by blast
      have a: "tr' = tr @ (mid @ new)" using n(1) mid(1) by simp
      have b: "(res = Inl ErrHistoryExpired) = (\<exists>ev \<in> set (mid @ new). historyNotFound ev)"
        using n(2) mid(2) by auto
      have c: "res = Inl ErrHistoryExpired \<longrightarrow> expiredEnd syncID (mid @ new)"
      proof
        assume "res = Inl ErrHistoryExpired"
        with n(3) obtain pre s t e r where
          "new = pre @ [EvListHistory s t (Inl e), EvFailSync syncID (Message ''history too old'') r]"
          "isNotFound e"
          unfolding expiredEnd_def by blast
        then have "mid @ new = (mid @ pre) @ [EvListHistory s t (Inl e),
            EvFailSync syncID (Message ''history too old'') r] \<and> isNotFound e" by simp
        then show "expiredEnd syncID (mid @ new)" unfolding expiredEnd_def by blast
      qed
      from a b c show ?thesis by blast
    qed
  qed
qed

lemma Incremental_inv:
  assumes run: "Incremental fuel E email tr = Some (res, tr')"
  shows "\<exists>new. tr' = tr @ new \<and>
     ((res = Inl ErrHistoryExpired) = (\<exists>ev \<in> set new. historyNotFound ev)) \<and>
     (res = Inl ErrHistoryExpired \<longrightarrow>
        (\<exists>sourceID syncID pre s t e r.
           new = pre @ [EvListHistory s t (Inl e),
                        EvFailSync syncID (Message ''history too old'') r] \<and>
           isNotFound e \<and>
           EvStartSync sourceID ''incremental'' (Inr syncID) \<in> set pre))"
proof (cases "GetSourceByIdentifier E tr email")
  case (Inl err)
  with run show ?thesis by (auto simp add: Incremental_def call_defs Let_def)
next
  case (Inr found)
  let ?tr1 = "tr @ [EvGetSourceByIdentifier email (Inr found)]"
  show ?thesis
  proof (cases found)
    case None
    with run Inr show ?thesis by (auto simp add: Incremental_def call_defs Let_def)
  next
    case (Some source)
    note src = Inr [unfolded Some]
    show ?thesis
    proof (cases "\<not> NullString_Valid (Source_SyncCursor source)
             \<or> NullString_String (Source_SyncCursor source) = []")
      case True
      with run src show ?thesis by (auto simp add: Incremental_def call_defs Let_def)
    next
      case valid: False
      show ?thesis
      proof (cases "ParseUint (NullString_String (Source_SyncCursor source))")
        case None
        with run src valid show ?thesis by (auto simp add: Incremental_def call_defs Let_def)
      next
        case (Some h)
        note cur = Some
        let ?tr1 = "tr @ [EvGetSourceByIdentifier email (Inr (Some source))]"
        show ?thesis
        proof (cases "StartSync E ?tr1 (Source_ID source) ''incremental''")
          case (Inl err)
          with run src valid cur show ?thesis
            by (auto simp add: Incremental_def call_defs Let_def)
        next
          case (Inr syncID)
          note start = Inr
          let ?tr2 = "?tr1 @ [EvStartSync (Source_ID source) ''incremental'' (Inr syncID)]"
          show ?thesis
          proof (cases "GetProfile E ?tr2")
            case (Inl err)
            with run src valid cur start show ?thesis
              by (auto simp add: Incremental_def call_defs Let_def)
          next
            case (Inr profile)
            note prof = Inr
            let ?tr3 = "?tr2 @ [EvGetProfile (Inr profile)]"
            show ?thesis
            proof (cases "h \<ge> Profile_HistoryID profile")
              case True
              with run src valid cur start prof show ?thesis
                by (auto simp add: Incremental_def call_defs Let_def)
            next
              case behind: False
              show ?thesis
              proof (cases "syncLabels E ?tr3 (Source_ID source)")
                case (Inl err)
                with run src valid cur start prof behind show ?thesis
                  by (auto simp add: Incremental_def call_defs Let_def)
              next
                case (Inr lm)
                note labels = Inr
                let ?tr4 = "?tr3 @ [EvSyncLabels (Source_ID source) (Inr lm)]"
                let ?loop = "historyLoop fuel E (Source_ID source) syncID h lm []
                    (emptyCheckpoint, newSummary (Now E tr), ?tr4)"
                have pre: "\<forall>ev \<in> set [EvGetSourceByIdentifier email (Inr (Some source)),
                    EvStartSync (Source_ID source) ''incremental'' (Inr syncID),
                    EvGetProfile (Inr profile), EvSyncLabels (Source_ID source) (Inr lm)].
                    \<not> historyNotFound ev" by simp
                have unfold: "Incremental fuel E email tr =
                  (case ?loop of
                     None \<Rightarrow> None
                   | Some (Inl e, tr5) \<Rightarrow> Some (Inl e, tr5)
                   | Some (Inr (cp, sm), tr5) \<Rightarrow>
                       (let historyIDStr = FormatUint (Profile_HistoryID profile)
                        in case callUpdateSourceSyncCursor E (Source_ID source) historyIDStr tr5 of
                          (r1, tr6) \<Rightarrow>
                            (case callCompleteSync E syncID historyIDStr tr6 of
                               (r2, tr7) \<Rightarrow>
                                 (let sm' = sm
                                        \<lparr>SyncSummary_EndTime := Now E tr7,
                                         SyncSummary_Duration := Now E tr7 - SyncSummary_StartTime sm,
                                         SyncSummary_MessagesFound := Checkpoint_MessagesProcessed cp,
                                         SyncSummary_MessagesAdded := Checkpoint_MessagesAdded cp,
                                         SyncSummary_MessagesUpdated := Checkpoint_MessagesUpdated cp,
                                         SyncSummary_Errors := Checkpoint_ErrorsCount cp,
                                         SyncSummary_FinalHistoryID := Profile_HistoryID profile\<rparr>
                                  in Some (Inr sm', tr7 @ [EvOnComplete sm'])))))"
                  using src valid cur start prof behind labels
                  by (simp add: Incremental_def callGetSourceByIdentifier_def callStartSync_def
                      callGetProfile_def callSyncLabels_def Let_def)
                show ?thesis
                proof (cases ?loop)
                  case None
                  with run unfold show ?thesis by simp
                next
                  case (Some out)
                  obtain lres tr5 where out: "out = (lres, tr5)" by (cases out) auto
                  from historyLoop_inv [OF Some [unfolded out]] obtain new where
                    n: "tr5 = ?tr4 @ new"
                      "(lres = Inl ErrHistoryExpired) = (\<exists>ev \<in> set new. historyNotFound ev)"
                      "lres = Inl ErrHistoryExpired \<longrightarrow> expiredEnd syncID new"
                    by blast
                  show ?thesis
                  proof (cases lres)
                    case (Inl e)
                    with run unfold Some out have r: "res = Inl e" "tr' = tr5" by simp_all
                    let ?new = "[EvGetSourceByIdentifier email (Inr (Some source)),
                      EvStartSync (Source_ID source) ''incremental'' (Inr syncID),
                      EvGetProfile (Inr profile), EvSyncLabels (Source_ID source) (Inr lm)] @ new"
                    have a: "tr' = tr @ ?new" using r n(1) by simp
                    have b: "(res = Inl ErrHistoryExpired) = (\<exists>ev \<in> set ?new. historyNotFound ev)"
                      using n(2) r Inl by auto
                    have c: "res = Inl ErrHistoryExpired \<longrightarrow>
                      (\<exists>sourceID syncID pre s t e r.
                         ?new = pre @ [EvListHistory s t (Inl e),
                                      EvFailSync syncID (Message ''history too old'') r] \<and>
                         isNotFound e \<and>
                         EvStartSync sourceID ''incremental'' (Inr syncID) \<in> set pre)"
                    proof
                      assume "res = Inl ErrHistoryExpired"
                      with n(3) r Inl obtain p s t e' r' where
                        "new = p @ [EvListHistory s t (Inl e'),
                            EvFailSync syncID (Message ''history too old'') r']" "isNotFound e'"
                        unfolding expiredEnd_def by auto
                      then have "?new = ([EvGetSourceByIdentifier email (Inr (Some source)),
                        EvStartSync (Source_ID source) ''incremental'' (Inr syncID),
                        EvGetProfile (Inr profile), EvSyncLabels (Source_ID source) (Inr lm)] @ p)
                          @ [EvListHistory s t (Inl e'),
                             EvFailSync syncID (Message ''history too old'') r'] \<and> isNotFound e' \<and>
                         EvStartSync (Source_ID source) ''incremental'' (Inr syncID) \<in>
                           set ([EvGetSourceByIdentifier email (Inr (Some source)),
                        EvStartSync (Source_ID source) ''incremental'' (Inr syncID),
                        EvGetProfile (Inr profile), EvSyncLabels (Source_ID source) (Inr lm)] @ p)"
                        by simp
                      then show "\<exists>sourceID syncID pre s t e r.
                         ?new = pre @ [EvListHistory s t (Inl e),
                                      EvFailSync syncID (Message ''history too old'') r] \<and>
                         isNotFound e \<and>
                         EvStartSync sourceID ''incremental'' (Inr syncID) \<in> set pre"
                        by (intro exI)
                    qed
                    from a b c show ?thesis by (intro exI [of _ ?new] conjI)
                  next
                    case (Inr fin)
                    obtain cp sm where d: "fin = (cp, sm)" by (cases fin) auto
                    from n(2) Inr have quiet: "\<forall>ev \<in> set new. \<not> historyNotFound ev" by auto
                    from run unfold Some out Inr d obtain post where
                      "res \<noteq> Inl ErrHistoryExpired" "tr' = tr5 @ post"
                      "\<forall>ev \<in> set post. \<not> historyNotFound ev"
                      by (auto simp add: callUpdateSourceSyncCursor_def callCompleteSync_def Let_def)
                    with n(1) quiet show ?thesis by auto
                  qed
                qed
              qed
            qed
          qed
        qed
      qed
    qed
  qed
qed

text \<open>
  Claim C2. First, at any iteration of the history loop, with any fuel left: when
  \<^verbatim>\<open>ListHistory\<close> returns an error, the loop ends there; it calls \<^verbatim>\<open>FailSync\<close> on the run and
  returns \<^verbatim>\<open>ErrHistoryExpired\<close> if the error is a \<^verbatim>\<open>NotFoundError\<close> (the reason is then ``history
  too old''), and the wrapped error otherwise. Second, for a whole run of \<^verbatim>\<open>Incremental\<close>: it
  returns \<^verbatim>\<open>ErrHistoryExpired\<close> exactly when one of its \<^verbatim>\<open>ListHistory\<close> calls returned a
  \<^verbatim>\<open>NotFoundError\<close>, and then that call and \<^verbatim>\<open>FailSync\<close>, on the run that this call of
  \<^verbatim>\<open>Incremental\<close> started, are the last two events.
\<close>

theorem history_expired_sentinel:
  "(ListHistory E tr start tok = Inl err \<longrightarrow>
      historyLoop (Suc fuel) E sourceID syncID start lm tok (cp, sm, tr) =
        Some (Inl (if isNotFound err then ErrHistoryExpired else ListHistoryFailed err),
              tr @ [EvListHistory start tok (Inl err),
                    EvFailSync syncID
                      (if isNotFound err then Message ''history too old'' else ErrorOf err)
                      (FailSync E (tr @ [EvListHistory start tok (Inl err)]) syncID
                         (if isNotFound err then Message ''history too old'' else ErrorOf err))])) \<and>
   (Incremental n Env email tr_in = Some (res, tr_out) \<longrightarrow>
      (\<exists>new. tr_out = tr_in @ new \<and>
         ((res = Inl ErrHistoryExpired) = (\<exists>ev \<in> set new. historyNotFound ev)) \<and>
         (res = Inl ErrHistoryExpired \<longrightarrow>
            (\<exists>sourceID syncID pre s t e r.
               new = pre @ [EvListHistory s t (Inl e),
                            EvFailSync syncID (Message ''history too old'') r] \<and>
               isNotFound e \<and>
               EvStartSync sourceID ''incremental'' (Inr syncID) \<in> set pre))))"
proof (intro conjI impI)
  assume "ListHistory E tr start tok = Inl err"
  then show "historyLoop (Suc fuel) E sourceID syncID start lm tok (cp, sm, tr) =
        Some (Inl (if isNotFound err then ErrHistoryExpired else ListHistoryFailed err),
              tr @ [EvListHistory start tok (Inl err),
                    EvFailSync syncID
                      (if isNotFound err then Message ''history too old'' else ErrorOf err)
                      (FailSync E (tr @ [EvListHistory start tok (Inl err)]) syncID
                         (if isNotFound err then Message ''history too old'' else ErrorOf err))])"
    by (rule historyLoop_error)
next
  assume "Incremental n Env email tr_in = Some (res, tr_out)"
  then show "\<exists>new. tr_out = tr_in @ new \<and>
         ((res = Inl ErrHistoryExpired) = (\<exists>ev \<in> set new. historyNotFound ev)) \<and>
         (res = Inl ErrHistoryExpired \<longrightarrow>
            (\<exists>sourceID syncID pre s t e r.
               new = pre @ [EvListHistory s t (Inl e),
                            EvFailSync syncID (Message ''history too old'') r] \<and>
               isNotFound e \<and>
               EvStartSync sourceID ''incremental'' (Inr syncID) \<in> set pre))"
    by (rule Incremental_inv)
qed

text \<open>
  The theorem in the environment of \<^verbatim>\<open>TestIncrementalSyncHistoryExpired\<close>.
\<close>

theorem history_expired_sentinel_witness:
  "ListHistory expiredEnv [] 1000 [] = Inl (NotFoundError ''/history'') \<and>
   historyLoop (Suc 0) expiredEnv 1 7 1000 [] [] (emptyCheckpoint, newSummary 0, []) =
     Some (Inl ErrHistoryExpired,
           [EvListHistory 1000 [] (Inl (NotFoundError ''/history'')),
            EvFailSync 7 (Message ''history too old'') None]) \<and>
   Incremental 1 expiredEnv ''test@example.com'' [] = Some (Inl ErrHistoryExpired, expiredTrace) \<and>
   (\<exists>new. expiredTrace = [] @ new \<and>
      ((Inl ErrHistoryExpired = (Inl ErrHistoryExpired :: sync_error + SyncSummary))
         = (\<exists>ev \<in> set new. historyNotFound ev)) \<and>
      ((Inl ErrHistoryExpired = (Inl ErrHistoryExpired :: sync_error + SyncSummary)) \<longrightarrow>
         (\<exists>sourceID syncID pre s t e r.
            new = pre @ [EvListHistory s t (Inl e),
                         EvFailSync syncID (Message ''history too old'') r] \<and>
            isNotFound e \<and>
            EvStartSync sourceID ''incremental'' (Inr syncID) \<in> set pre)))"
proof -
  have h1: "ListHistory expiredEnv [] 1000 [] = Inl (NotFoundError ''/history'')"
    by (simp add: expiredEnv_def mockEnv_def)
  have h2: "Incremental 1 expiredEnv ''test@example.com'' [] =
      Some (Inl ErrHistoryExpired, expiredTrace)"
    by (simp add: Incremental_def expiredEnv_def expiredTrace_def mockEnv_def call_defs
        callListHistory_def Let_def ParseUint_def digitVal_def)
  note t = history_expired_sentinel [where E = expiredEnv and tr = "[]" and start = 1000
      and tok = "[]" and err = "NotFoundError ''/history''" and fuel = 0 and sourceID = 1
      and syncID = 7 and lm = "[]" and cp = emptyCheckpoint and sm = "newSummary 0"
      and n = 1 and Env = expiredEnv and email = "''test@example.com''" and tr_in = "[]"
      and res = "Inl ErrHistoryExpired" and tr_out = expiredTrace]
  from t [THEN conjunct1, THEN mp, OF h1]
  have c1: "historyLoop (Suc 0) expiredEnv 1 7 1000 [] [] (emptyCheckpoint, newSummary 0, []) =
     Some (Inl ErrHistoryExpired,
           [EvListHistory 1000 [] (Inl (NotFoundError ''/history'')),
            EvFailSync 7 (Message ''history too old'') None])"
    by (simp add: expiredEnv_def mockEnv_def)
  note c2 = t [THEN conjunct2, THEN mp, OF h2]
  show ?thesis
    by (rule conjI [OF h1 conjI [OF c1 conjI [OF h2 c2]]])
qed

section \<open>Properties of the rate limiter\<close>

lemma Throttle_until:
  "throttledUntil (Throttle now d rl) = max (throttledUntil rl) (now + d)"
  by (simp add: Throttle_def max_def)

lemma throttleAll_append:
  "throttleAll (cs1 @ cs2) rl = throttleAll cs2 (throttleAll cs1 rl)"
  by (simp add: throttleAll_def)

lemma throttleAll_mono: "throttledUntil rl \<le> throttledUntil (throttleAll calls rl)"
proof (induction calls arbitrary: rl)
  case Nil
  show ?case by (simp add: throttleAll_def)
next
  case (Cons c calls)
  obtain now d where c: "c = (now, d)" by (cases c) auto
  have "throttledUntil rl \<le> throttledUntil (Throttle now d rl)"
    by (simp add: Throttle_until)
  also have "\<dots> \<le> throttledUntil (throttleAll calls (Throttle now d rl))"
    by (rule Cons.IH)
  finally show ?case by (simp add: throttleAll_def c)
qed

text \<open>
  Claim C4. A call \<^verbatim>\<open>Throttle(d)\<close> at time \<open>now\<close> never moves \<^verbatim>\<open>throttledUntil\<close> earlier; it
  changes it only when \<open>now + d\<close> is later than the current value, and then to \<open>now + d\<close>.
  In every sequence of \<^verbatim>\<open>Throttle\<close> calls, whatever their clock readings and durations, the
  expiry after any later call is not earlier than before it.
\<close>

theorem Throttle_never_shortens:
  "throttledUntil rl \<le> throttledUntil (Throttle now d rl) \<and>
   (throttledUntil (Throttle now d rl) \<noteq> throttledUntil rl \<longrightarrow>
      throttledUntil rl < now + d \<and> throttledUntil (Throttle now d rl) = now + d) \<and>
   (throttledUntil rl < now + d \<longrightarrow> throttledUntil (Throttle now d rl) = now + d) \<and>
   throttledUntil (throttleAll before rl)
     \<le> throttledUntil (throttleAll (before @ [(now, d)] @ after) rl)"
proof -
  have "throttledUntil (throttleAll before rl)
     \<le> throttledUntil (throttleAll ([(now, d)] @ after) (throttleAll before rl))"
    by (rule throttleAll_mono)
  then show ?thesis
    by (simp add: Throttle_until throttleAll_append max_def)
qed

text \<open>
  The theorem on a limiter throttled until 200: \<^verbatim>\<open>Throttle(50)\<close> at time 30 leaves the
  expiry, \<^verbatim>\<open>Throttle(50)\<close> at time 180 moves it to 230.
\<close>

theorem Throttle_never_shortens_witness:
  "throttledUntil \<lparr>capacity = 250, tokens_left = 250, refillRate = 250, minRefillRate = 5,
       throttledUntil = 200\<rparr>
     \<le> throttledUntil (Throttle 30 50 \<lparr>capacity = 250, tokens_left = 250, refillRate = 250,
          minRefillRate = 5, throttledUntil = 200\<rparr>) \<and>
   throttledUntil (Throttle 30 50 \<lparr>capacity = 250, tokens_left = 250, refillRate = 250,
          minRefillRate = 5, throttledUntil = 200\<rparr>) = 200 \<and>
   throttledUntil (Throttle 180 50 \<lparr>capacity = 250, tokens_left = 250, refillRate = 250,
          minRefillRate = 5, throttledUntil = 200\<rparr>) = 230"
proof -
  let ?rl = "\<lparr>capacity = 250, tokens_left = 250, refillRate = 250, minRefillRate = 5,
       throttledUntil = 200\<rparr>"
  note a = Throttle_never_shortens [of ?rl 30 50 "[]" "[]"]
  note b = Throttle_never_shortens [of ?rl 180 50 "[]" "[]"]
  have h: "throttledUntil ?rl < 180 + 50" by simp
  have 1: "throttledUntil ?rl \<le> throttledUntil (Throttle 30 50 ?rl)"
    by (rule a [THEN conjunct1])
  have 2: "throttledUntil (Throttle 30 50 ?rl) = 200"
  proof (rule ccontr)
    assume n: "throttledUntil (Throttle 30 50 ?rl) \<noteq> 200"
    then have "throttledUntil (Throttle 30 50 ?rl) \<noteq> throttledUntil ?rl" by simp
    from a [THEN conjunct2, THEN conjunct1, THEN mp, OF this]
    show False by simp
  qed
  have 3: "throttledUntil (Throttle 180 50 ?rl) = 230"
    using b [THEN conjunct2, THEN conjunct2, THEN conjunct1, THEN mp, OF h] by simp
  show ?thesis by (rule conjI [OF 1 conjI [OF 2 3]])
qed

section \<open>Properties of the deletion executor\<close>

lemma fst_snd_remoteCall: "fst (snd (remoteCall R opts calls gmailID)) = gmailID"
  by (simp add: remoteCall_def)

lemma executeIDs_run:
  assumes nc: "\<forall>calls. \<not> Cancelled R calls"
  shows "\<exists>new ex' saved'.
     executeIDs R opts i ids (ex, calls, saved) = (None, ex', calls @ new, saved') \<and>
     map (\<lambda>c. fst (snd c)) new = ids \<and>
     (\<forall>k < length new. new ! k = remoteCall R opts (calls @ take k new) (ids ! k)) \<and>
     Execution_Succeeded ex' = Execution_Succeeded ex + int (length (filter succeededCall new)) \<and>
     Execution_Failed ex' =
       Execution_Failed ex + int (length (filter (\<lambda>c. \<not> succeededCall c) new)) \<and>
     Execution_FailedIDs ex' =
       Execution_FailedIDs ex @ map (\<lambda>c. fst (snd c)) (filter (\<lambda>c. \<not> succeededCall c) new)"
proof (induction ids arbitrary: i ex calls saved)
  case Nil
  show ?case by simp
next
  case (Cons gmailID ids)
  define c where "c = remoteCall R opts calls gmailID"
  define ex1 where "ex1 = (if succeededCall c
                      then ex\<lparr>Execution_Succeeded := Execution_Succeeded ex + 1\<rparr>
                      else ex\<lparr>Execution_Failed := Execution_Failed ex + 1,
                              Execution_FailedIDs := Execution_FailedIDs ex @ [gmailID]\<rparr>)"
  define ex2 where "ex2 = ex1\<lparr>Execution_LastProcessedIndex := i + 1\<rparr>"
  define saved1 where "saved1 = (if ExecuteOptions_BatchSize opts > 0
                            \<and> (i + 1) mod ExecuteOptions_BatchSize opts = 0
                         then saved @ [ex2] else saved)"
  have step: "executeIDs R opts i (gmailID # ids) (ex, calls, saved) =
      executeIDs R opts (i + 1) ids (ex2, calls @ [c], saved1)"
    using nc by (simp add: Let_def c_def ex1_def ex2_def saved1_def)
  from Cons.IH [of "i + 1" ex2 "calls @ [c]" saved1] obtain new ex' saved' where
    ih: "executeIDs R opts (i + 1) ids (ex2, calls @ [c], saved1) =
           (None, ex', (calls @ [c]) @ new, saved')"
      "map (\<lambda>c. fst (snd c)) new = ids"
      "\<forall>k < length new. new ! k = remoteCall R opts ((calls @ [c]) @ take k new) (ids ! k)"
      "Execution_Succeeded ex' = Execution_Succeeded ex2 + int (length (filter succeededCall new))"
      "Execution_Failed ex' =
         Execution_Failed ex2 + int (length (filter (\<lambda>c. \<not> succeededCall c) new))"
      "Execution_FailedIDs ex' =
         Execution_FailedIDs ex2 @ map (\<lambda>c. fst (snd c)) (filter (\<lambda>c. \<not> succeededCall c) new)"
    by blast
  have e2: "Execution_Succeeded ex2 = Execution_Succeeded ex + (if succeededCall c then 1 else 0)"
    "Execution_Failed ex2 = Execution_Failed ex + (if succeededCall c then 0 else 1)"
    "Execution_FailedIDs ex2 = Execution_FailedIDs ex @ (if succeededCall c then [] else [gmailID])"
    by (simp_all add: ex2_def ex1_def)
  have nth: "\<forall>k < length (c # new).
        (c # new) ! k = remoteCall R opts (calls @ take k (c # new)) ((gmailID # ids) ! k)"
  proof (intro allI impI)
    fix k assume k: "k < length (c # new)"
    show "(c # new) ! k = remoteCall R opts (calls @ take k (c # new)) ((gmailID # ids) ! k)"
    proof (cases k)
      case 0
      then show ?thesis by (simp add: c_def)
    next
      case (Suc j)
      with k ih(3) show ?thesis by simp
    qed
  qed
  have "executeIDs R opts i (gmailID # ids) (ex, calls, saved) =
          (None, ex', calls @ (c # new), saved') \<and>
     map (\<lambda>c. fst (snd c)) (c # new) = gmailID # ids \<and>
     (\<forall>k < length (c # new).
        (c # new) ! k = remoteCall R opts (calls @ take k (c # new)) ((gmailID # ids) ! k)) \<and>
     Execution_Succeeded ex' =
       Execution_Succeeded ex + int (length (filter succeededCall (c # new))) \<and>
     Execution_Failed ex' =
       Execution_Failed ex + int (length (filter (\<lambda>c. \<not> succeededCall c) (c # new))) \<and>
     Execution_FailedIDs ex' =
       Execution_FailedIDs ex @
         map (\<lambda>c. fst (snd c)) (filter (\<lambda>c. \<not> succeededCall c) (c # new))"
    using step ih e2 nth by (simp add: c_def remoteCall_def)
  then show ?case by (intro exI)
qed

lemma succeededCall_iff:
  "succeededCall c = (snd (snd c) = None \<or> (\<exists>err. snd (snd c) = Some err \<and> isNotFound err))"
  by (cases "snd (snd c)") (simp_all add: succeededCall_def)

text \<open>
  Claim C3. Let \<^verbatim>\<open>Execute\<close> run on a pending manifest (or one in progress) and never find
  its context cancelled. Then it returns without error, having made one call for each id
  from the start index, in order, and logged what the remote answered. A call counts as a
  success exactly when it returned no error or a \<^verbatim>\<open>NotFoundError\<close>; the successes are added
  to the success counter; every other call is added to the failure counter and its id is
  appended, in order, to \<^verbatim>\<open>failed_ids\<close>. The manifest ends \<^verbatim>\<open>completed\<close> if the success counter
  is at least one and \<^verbatim>\<open>failed\<close> otherwise.
\<close>

theorem Execute_counts_and_final_status:
  assumes "Manifest_Status m = StatusPending \<or> Manifest_Status m = StatusInProgress"
    and "\<forall>calls. \<not> Cancelled R calls"
  shows "\<exists>m' ex' new saved.
     Execute R opts now m calls = (None, m', calls @ new, saved) \<and>
     Manifest_Execution m' = Some ex' \<and>
     map (\<lambda>c. fst (snd c)) new = drop (startIndex opts now m) (Manifest_GmailIDs m) \<and>
     (\<forall>k < length new.
        new ! k = remoteCall R opts (calls @ take k new)
                    (drop (startIndex opts now m) (Manifest_GmailIDs m) ! k)) \<and>
     (\<forall>c \<in> set new.
        succeededCall c =
          (snd (snd c) = None \<or> (\<exists>err. snd (snd c) = Some err \<and> isNotFound err))) \<and>
     Execution_Succeeded ex' =
       Execution_Succeeded (startExecution opts now m)
         + int (length (filter succeededCall new)) \<and>
     Execution_Failed ex' =
       Execution_Failed (startExecution opts now m)
         + int (length (filter (\<lambda>c. \<not> succeededCall c) new)) \<and>
     Execution_FailedIDs ex' =
       Execution_FailedIDs (startExecution opts now m)
         @ map (\<lambda>c. fst (snd c)) (filter (\<lambda>c. \<not> succeededCall c) new) \<and>
     Manifest_Status m' =
       (if Execution_Succeeded ex' \<ge> 1 then StatusCompleted else StatusFailed)"
proof -
  let ?ids = "drop (startIndex opts now m) (Manifest_GmailIDs m)"
  let ?ex0 = "startExecution opts now m"
  from executeIDs_run [OF assms(2), of opts "startIndex opts now m" ?ids ?ex0 calls "[]"]
  obtain new ex' saved' where
    r: "executeIDs R opts (startIndex opts now m) ?ids (?ex0, calls, []) =
          (None, ex', calls @ new, saved')"
      "map (\<lambda>c. fst (snd c)) new = ?ids"
      "\<forall>k < length new. new ! k = remoteCall R opts (calls @ take k new) (?ids ! k)"
      "Execution_Succeeded ex' =
         Execution_Succeeded ?ex0 + int (length (filter succeededCall new))"
      "Execution_Failed ex' =
         Execution_Failed ?ex0 + int (length (filter (\<lambda>c. \<not> succeededCall c) new))"
      "Execution_FailedIDs ex' =
         Execution_FailedIDs ?ex0 @ map (\<lambda>c. fst (snd c)) (filter (\<lambda>c. \<not> succeededCall c) new)"
    by blast
  let ?m' = "m\<lparr>Manifest_Status :=
                   (if Execution_Succeeded ex' \<ge> 1 then StatusCompleted else StatusFailed),
                Manifest_Execution := Some ex'\<rparr>"
  have e: "Execute R opts now m calls = (None, ?m', calls @ new, saved')"
    using assms(1) r(1) by (auto simp add: Execute_def)
  have s: "\<forall>c \<in> set new.
        succeededCall c =
          (snd (snd c) = None \<or> (\<exists>err. snd (snd c) = Some err \<and> isNotFound err))"
    using succeededCall_iff by blast
  have "Execute R opts now m calls = (None, ?m', calls @ new, saved') \<and>
     Manifest_Execution ?m' = Some ex' \<and>
     map (\<lambda>c. fst (snd c)) new = ?ids \<and>
     (\<forall>k < length new. new ! k = remoteCall R opts (calls @ take k new) (?ids ! k)) \<and>
     (\<forall>c \<in> set new.
        succeededCall c =
          (snd (snd c) = None \<or> (\<exists>err. snd (snd c) = Some err \<and> isNotFound err))) \<and>
     Execution_Succeeded ex' =
       Execution_Succeeded ?ex0 + int (length (filter succeededCall new)) \<and>
     Execution_Failed ex' =
       Execution_Failed ?ex0 + int (length (filter (\<lambda>c. \<not> succeededCall c) new)) \<and>
     Execution_FailedIDs ex' =
       Execution_FailedIDs ?ex0 @ map (\<lambda>c. fst (snd c)) (filter (\<lambda>c. \<not> succeededCall c) new) \<and>
     Manifest_Status ?m' =
       (if Execution_Succeeded ex' \<ge> 1 then StatusCompleted else StatusFailed)"
    using e r(2-6) s by simp
  then show ?thesis by (intro exI)
qed

lemmas exec_defs = Execute_def startIndex_def startExecution_def mixedRemote_def mockRemote_def
  mixedManifest_def defaultOptions_def remoteCall_def succeededCall_def Let_def

text \<open>
  The theorem on the manifest of \<^verbatim>\<open>TestExecutor_Execute_DeletionMock_MixedErrors\<close>, with the
  outcome of the run: four successes (one of them the 404), one failure, \<open>msg4\<close>.
\<close>

theorem Execute_counts_and_final_status_witness:
  "(Manifest_Status mixedManifest = StatusPending \<or> Manifest_Status mixedManifest = StatusInProgress) \<and>
   (\<forall>calls. \<not> Cancelled mixedRemote calls) \<and>
   Execute mixedRemote defaultOptions 0 mixedManifest [] =
     (None,
      mixedManifest\<lparr>Manifest_Status := StatusCompleted,
        Manifest_Execution := Some
          \<lparr>Execution_StartedAt = 0, Execution_Method = MethodTrash, Execution_Succeeded = 4,
           Execution_Failed = 1, Execution_LastProcessedIndex = 5,
           Execution_FailedIDs = [''msg4'']\<rparr>\<rparr>,
      [(MethodTrash, ''msg1'', None),
       (MethodTrash, ''msg2'', Some (NotFoundError ''/users/me/messages/msg2/trash'')),
       (MethodTrash, ''msg3'', None),
       (MethodTrash, ''msg4'', Some (OtherError ''server error'')),
       (MethodTrash, ''msg5'', None)],
      []) \<and>
   (\<exists>m' ex' new saved.
     Execute mixedRemote defaultOptions 0 mixedManifest [] = (None, m', [] @ new, saved) \<and>
     Manifest_Execution m' = Some ex' \<and>
     Execution_Succeeded ex' =
       Execution_Succeeded (startExecution defaultOptions 0 mixedManifest)
         + int (length (filter succeededCall new)) \<and>
     Execution_FailedIDs ex' =
       Execution_FailedIDs (startExecution defaultOptions 0 mixedManifest)
         @ map (\<lambda>c. fst (snd c)) (filter (\<lambda>c. \<not> succeededCall c) new) \<and>
     Manifest_Status m' =
       (if Execution_Succeeded ex' \<ge> 1 then StatusCompleted else StatusFailed))"
proof -
  have h1: "Manifest_Status mixedManifest = StatusPending
      \<or> Manifest_Status mixedManifest = StatusInProgress"
    by (simp add: mixedManifest_def)
  have h2: "\<forall>calls. \<not> Cancelled mixedRemote calls"
    by (simp add: mixedRemote_def mockRemote_def)
  have ev: "Execute mixedRemote defaultOptions 0 mixedManifest [] =
     (None,
      mixedManifest\<lparr>Manifest_Status := StatusCompleted,
        Manifest_Execution := Some
          \<lparr>Execution_StartedAt = 0, Execution_Method = MethodTrash, Execution_Succeeded = 4,
           Execution_Failed = 1, Execution_LastProcessedIndex = 5,
           Execution_FailedIDs = [''msg4'']\<rparr>\<rparr>,
      [(MethodTrash, ''msg1'', None),
       (MethodTrash, ''msg2'', Some (NotFoundError ''/users/me/messages/msg2/trash'')),
       (MethodTrash, ''msg3'', None),
       (MethodTrash, ''msg4'', Some (OtherError ''server error'')),
       (MethodTrash, ''msg5'', None)],
      [])"
    by (simp add: exec_defs)
  from Execute_counts_and_final_status [OF h1 h2, of defaultOptions 0 "[]"]
  obtain m' ex' new saved where
    "Execute mixedRemote defaultOptions 0 mixedManifest [] = (None, m', [] @ new, saved)"
    "Manifest_Execution m' = Some ex'"
    "Execution_Succeeded ex' =
       Execution_Succeeded (startExecution defaultOptions 0 mixedManifest)
         + int (length (filter succeededCall new))"
    "Execution_FailedIDs ex' =
       Execution_FailedIDs (startExecution defaultOptions 0 mixedManifest)
         @ map (\<lambda>c. fst (snd c)) (filter (\<lambda>c. \<not> succeededCall c) new)"
    "Manifest_Status m' =
       (if Execution_Succeeded ex' \<ge> 1 then StatusCompleted else StatusFailed)"
    by blast
  then have c: "\<exists>m' ex' new saved.
     Execute mixedRemote defaultOptions 0 mixedManifest [] = (None, m', [] @ new, saved) \<and>
     Manifest_Execution m' = Some ex' \<and>
     Execution_Succeeded ex' =
       Execution_Succeeded (startExecution defaultOptions 0 mixedManifest)
         + int (length (filter succeededCall new)) \<and>
     Execution_FailedIDs ex' =
       Execution_FailedIDs (startExecution defaultOptions 0 mixedManifest)
         @ map (\<lambda>c. fst (snd c)) (filter (\<lambda>c. \<not> succeededCall c) new) \<and>
     Manifest_Status m' =
       (if Execution_Succeeded ex' \<ge> 1 then StatusCompleted else StatusFailed)"
    by blast
  show ?thesis by (rule conjI [OF h1 conjI [OF h2 conjI [OF ev c]]])
qed

section \<open>Properties of the dates of an ingested message\<close>

lemma firstLayout_None_zero: "firstLayout timeParse layouts s = None \<Longrightarrow>
   mimeParseDate timeParse layouts s = zeroTime"
  by (simp add: mimeParseDate_def)

lemma firstLayout_Some:
  "firstLayout timeParse layouts s = Some t \<Longrightarrow> \<exists>layout \<in> set layouts. timeParse layout s = Some t"
  by (induction layouts) (auto split: option.splits)

text \<open>
  Claim C5. If parsing the \<^verbatim>\<open>Date\<close> header gives a non-zero time, the stored \<^verbatim>\<open>sent_at\<close> is
  that time: it is in UTC and it is the instant that \<^verbatim>\<open>time.Parse\<close> read with one of the
  layouts. If parsing gives the zero time, \<^verbatim>\<open>sent_at\<close> is the \<^verbatim>\<open>internal_date\<close> of the message;
  this is so in particular when no layout parses the header. The \<^verbatim>\<open>internal_date\<close> is the
  server timestamp of the raw message.
\<close>

theorem sent_at_parsed_or_internal_date:
  "(\<not> IsZero (mimeParseDate timeParse layouts dateHeader) \<longrightarrow>
      SentAt (ingestDates timeParse layouts dateHeader internalDate)
        = mimeParseDate timeParse layouts dateHeader \<and>
      zoneOffset (SentAt (ingestDates timeParse layouts dateHeader internalDate)) = 0 \<and>
      (\<exists>layout \<in> set layouts. \<exists>t. timeParse layout dateHeader = Some t \<and>
         instant (SentAt (ingestDates timeParse layouts dateHeader internalDate)) = instant t)) \<and>
   (IsZero (mimeParseDate timeParse layouts dateHeader) \<longrightarrow>
      SentAt (ingestDates timeParse layouts dateHeader internalDate)
        = InternalDate (ingestDates timeParse layouts dateHeader internalDate)) \<and>
   ((\<forall>layout \<in> set layouts. timeParse layout dateHeader = None) \<longrightarrow>
      mimeParseDate timeParse layouts dateHeader = zeroTime \<and>
      SentAt (ingestDates timeParse layouts dateHeader internalDate) = UnixMilli internalDate) \<and>
   InternalDate (ingestDates timeParse layouts dateHeader internalDate) = UnixMilli internalDate"
proof (intro conjI impI)
  assume nz: "\<not> IsZero (mimeParseDate timeParse layouts dateHeader)"
  then show "SentAt (ingestDates timeParse layouts dateHeader internalDate)
        = mimeParseDate timeParse layouts dateHeader"
    by (simp add: ingestDates_def Let_def)
  from nz obtain t where t: "firstLayout timeParse layouts dateHeader = Some t"
    by (cases "firstLayout timeParse layouts dateHeader")
       (auto simp add: mimeParseDate_def zeroTime_def IsZero_def)
  then have p: "mimeParseDate timeParse layouts dateHeader = UTC t"
    by (simp add: mimeParseDate_def)
  with nz show "zoneOffset (SentAt (ingestDates timeParse layouts dateHeader internalDate)) = 0"
    by (simp add: ingestDates_def Let_def UTC_def)
  from firstLayout_Some [OF t] obtain layout where
    "layout \<in> set layouts" "timeParse layout dateHeader = Some t" by blast
  moreover have "instant (SentAt (ingestDates timeParse layouts dateHeader internalDate)) = instant t"
    using nz p by (simp add: ingestDates_def Let_def UTC_def)
  ultimately show "\<exists>layout \<in> set layouts. \<exists>t. timeParse layout dateHeader = Some t \<and>
         instant (SentAt (ingestDates timeParse layouts dateHeader internalDate)) = instant t"
    by blast
next
  assume "IsZero (mimeParseDate timeParse layouts dateHeader)"
  then show "SentAt (ingestDates timeParse layouts dateHeader internalDate)
        = InternalDate (ingestDates timeParse layouts dateHeader internalDate)"
    by (simp add: ingestDates_def Let_def)
next
  assume a: "\<forall>layout \<in> set layouts. timeParse layout dateHeader = None"
  have "firstLayout timeParse layouts dateHeader = None"
  proof (cases "firstLayout timeParse layouts dateHeader")
    case None
    then show ?thesis .
  next
    case (Some t)
    from firstLayout_Some [OF this] a show ?thesis by auto
  qed
  then show z: "mimeParseDate timeParse layouts dateHeader = zeroTime"
    by (rule firstLayout_None_zero)
  then show "SentAt (ingestDates timeParse layouts dateHeader internalDate) = UnixMilli internalDate"
    by (simp add: ingestDates_def Let_def IsZero_def zeroTime_def)
next
  show "InternalDate (ingestDates timeParse layouts dateHeader internalDate) = UnixMilli internalDate"
    by (simp add: ingestDates_def Let_def)
qed

text \<open>
  The theorem on the header \<open>Mon, 02 Jan 2006 15:04:05 -0700\<close> and on the header of
  \<^verbatim>\<open>TestFullSyncDateFallbackToInternalDate\<close>.
\<close>

theorem sent_at_parsed_or_internal_date_witness:
  "\<not> IsZero (mimeParseDate oneDate testLayouts ''Mon, 02 Jan 2006 15:04:05 -0700'') \<and>
   SentAt (ingestDates oneDate testLayouts ''Mon, 02 Jan 2006 15:04:05 -0700'' 1705320000000)
     = \<lparr>instant = 1136239445000, zoneOffset = 0\<rparr> \<and>
   IsZero (mimeParseDate oneDate testLayouts ''This is not a valid date'') \<and>
   SentAt (ingestDates oneDate testLayouts ''This is not a valid date'' 1705320000000)
     = InternalDate (ingestDates oneDate testLayouts ''This is not a valid date'' 1705320000000) \<and>
   SentAt (ingestDates oneDate testLayouts ''This is not a valid date'' 1705320000000)
     = UnixMilli 1705320000000"
proof -
  have p: "mimeParseDate oneDate testLayouts ''Mon, 02 Jan 2006 15:04:05 -0700''
      = \<lparr>instant = 1136239445000, zoneOffset = 0\<rparr>"
    by (simp add: mimeParseDate_def testLayouts_def oneDate_def UTC_def)
  have h1: "\<not> IsZero (mimeParseDate oneDate testLayouts ''Mon, 02 Jan 2006 15:04:05 -0700'')"
    by (simp add: p IsZero_def)
  have h2: "IsZero (mimeParseDate oneDate testLayouts ''This is not a valid date'')"
    by (simp add: mimeParseDate_def testLayouts_def oneDate_def IsZero_def zeroTime_def)
  have h3: "\<forall>layout \<in> set testLayouts. oneDate layout ''This is not a valid date'' = None"
    by (simp add: testLayouts_def oneDate_def)
  note a = sent_at_parsed_or_internal_date
    [of oneDate testLayouts "''Mon, 02 Jan 2006 15:04:05 -0700''" 1705320000000]
  note b = sent_at_parsed_or_internal_date
    [of oneDate testLayouts "''This is not a valid date''" 1705320000000]
  have c1: "SentAt (ingestDates oneDate testLayouts ''Mon, 02 Jan 2006 15:04:05 -0700'' 1705320000000)
     = \<lparr>instant = 1136239445000, zoneOffset = 0\<rparr>"
    using a [THEN conjunct1, THEN mp, OF h1, THEN conjunct1] by (simp only: p)
  note c2 = b [THEN conjunct2, THEN conjunct1, THEN mp, OF h2]
  note c3 = b [THEN conjunct2, THEN conjunct2, THEN conjunct1, THEN mp, OF h3, THEN conjunct2]
  show ?thesis by (rule conjI [OF h1 conjI [OF c1 conjI [OF h2 conjI [OF c2 c3]]]])
qed

end
